theory Spec2Isabelle
  imports Complex_Main "HOL-Library.Multiset" "HOL-Library.Char_ord" "HOL-Library.List_Lexorder"
begin

text \<open>
  The concrete-strength notebook: a train and test split, the \<open>LogTransformer\<close> class,
  a randomized search over a support-vector regression pipeline, and the evaluation of
  the best estimator on the test set. The class is translated method by method. The
  notebook's other cells are calls into numpy, pandas, scipy and scikit-learn; each
  called function is written out here as far as the call uses it, from the library's
  documented behaviour. Three things are parameters: the drawing of random numbers, the
  rounded logarithm and exponential of the math library, and the quantile function of
  Student's t distribution. An exception is a value of type \<open>error\<close> on the left of a
  sum.
\<close>

section \<open>Numeric values and arrays\<close>

text \<open>
  A float64 as numpy holds it: a finite value, written as the real number it is, or one
  of the three special values, which \<open>np.log\<close>, \<open>np.exp\<close>, \<open>np.sqrt\<close> and a division by
  zero produce and \<open>check_array\<close> looks for. The logarithm and the exponential round
  their results and the exponential overflows; the sums, products and square roots of
  the evaluation are taken exactly.
\<close>

datatype float64 = Fin real | PInf | NInf | NaN

fun isfinite :: "float64 \<Rightarrow> bool" where
  "isfinite (Fin x) = True"
| "isfinite PInf = False"
| "isfinite NInf = False"
| "isfinite NaN = False"

text \<open>\<open>v > 0\<close> on a float64: true of a positive finite value and of \<open>+inf\<close>, false of NaN.\<close>

fun is_positive :: "float64 \<Rightarrow> bool" where
  "is_positive (Fin x) = (0 < x)"
| "is_positive PInf = True"
| "is_positive NInf = False"
| "is_positive NaN = False"

text \<open>\<open>v <= 0\<close> on a float64: zero or negative (\<open>-inf\<close> included), false of NaN.\<close>

fun is_nonpositive :: "float64 \<Rightarrow> bool" where
  "is_nonpositive (Fin x) = (x \<le> 0)"
| "is_nonpositive PInf = False"
| "is_nonpositive NInf = True"
| "is_nonpositive NaN = False"

text \<open>The largest finite float64, \<open>(2 - 2^-52) * 2^1023\<close>.\<close>

definition max_float :: real where
  "max_float = (2 - 1 / 2 ^ 52) * 2 ^ 1023"

text \<open>
  The math library under \<open>np.log\<close> and \<open>np.exp\<close>: \<open>c_log x\<close> is the float64 it returns
  for the logarithm of a positive finite \<open>x\<close>, and \<open>c_exp x\<close> the exponential of a finite
  \<open>x\<close> rounded to a float64 significand, before the result is compared with the largest
  finite float64.
\<close>

record libm =
  c_log :: "real \<Rightarrow> real"
  c_exp :: "real \<Rightarrow> real"

text \<open>
  The accuracy of a math library: a relative error of at most \<open>eps\<close> on both functions,
  and on the exponential an absolute error of at most \<open>eta\<close> more, for results that
  underflow.
\<close>

definition libm_ok :: "libm \<Rightarrow> real \<Rightarrow> real \<Rightarrow> bool" where
  "libm_ok M eps eta \<longleftrightarrow>
     0 \<le> eps \<and> 0 \<le> eta
     \<and> (\<forall>x. 0 < x \<longrightarrow> \<bar>c_log M x - ln x\<bar> \<le> eps * \<bar>ln x\<bar>)
     \<and> (\<forall>x. \<bar>c_exp M x - exp x\<bar> \<le> eps * exp x + eta)"

text \<open>
  \<open>np.log\<close>: the natural logarithm; \<open>log(0) = -inf\<close> and the logarithm of a negative
  number is NaN (numpy warns, it does not raise).
\<close>

fun np_log :: "libm \<Rightarrow> float64 \<Rightarrow> float64" where
  "np_log M (Fin x) = (if 0 < x then Fin (c_log M x) else if x = 0 then NInf else NaN)"
| "np_log M PInf = PInf"
| "np_log M NInf = NaN"
| "np_log M NaN = NaN"

text \<open>\<open>np.exp\<close>: \<open>+inf\<close> when the rounded result exceeds the largest finite float64.\<close>

fun np_exp :: "libm \<Rightarrow> float64 \<Rightarrow> float64" where
  "np_exp M (Fin x) = (if max_float < c_exp M x then PInf else Fin (c_exp M x))"
| "np_exp M PInf = PInf"
| "np_exp M NInf = Fin 0"
| "np_exp M NaN = NaN"

text \<open>
  The distance within which \<open>exp(log(x))\<close> stays of a positive \<open>x\<close> when both functions
  are accurate to \<open>eps\<close> and \<open>eta\<close>: about \<open>eps * (1 + |ln x|) * x\<close>.
\<close>

definition tolerance :: "real \<Rightarrow> real \<Rightarrow> real \<Rightarrow> real" where
  "tolerance eps eta x = x * ((1 + eps) * exp (eps * \<bar>ln x\<bar>) - 1) + eta"

text \<open>
  An entry \<open>w\<close> recovers the entry \<open>v\<close> within that tolerance: both are finite and
  their distance is at most the tolerance at \<open>v\<close>.
\<close>

fun within_tolerance :: "real \<Rightarrow> real \<Rightarrow> float64 \<Rightarrow> float64 \<Rightarrow> bool" where
  "within_tolerance eps eta (Fin x) (Fin y) = (\<bar>y - x\<bar> \<le> tolerance eps eta x)"
| "within_tolerance eps eta v w = False"

text \<open>
  An entry \<open>w\<close> is what the round trip may return for a finite entry \<open>v\<close>: a finite
  value within the tolerance of \<open>v\<close>, or \<open>+inf\<close> when a value within the tolerance of \<open>v\<close>
  exceeds the largest finite float64.
\<close>

fun recovers :: "real \<Rightarrow> real \<Rightarrow> float64 \<Rightarrow> float64 \<Rightarrow> bool" where
  "recovers eps eta (Fin x) (Fin y) = (\<bar>y - x\<bar> \<le> tolerance eps eta x)"
| "recovers eps eta (Fin x) PInf = (max_float < x + tolerance eps eta x)"
| "recovers eps eta v w = False"

text \<open>
  A finite entry whose tolerance interval ends at or below the largest finite float64, so
  that the exponential of its logarithm cannot overflow.
\<close>

fun below_overflow :: "real \<Rightarrow> real \<Rightarrow> float64 \<Rightarrow> bool" where
  "below_overflow eps eta (Fin x) = (x + tolerance eps eta x \<le> max_float)"
| "below_overflow eps eta v = False"

text \<open>
  What \<open>np.exp\<close> may return for an entry when the math library is accurate to \<open>eps\<close> and
  \<open>eta\<close>: for a finite \<open>x\<close>, a finite value at most the largest float64 and within the
  accuracy of \<open>exp x\<close>, or \<open>+inf\<close> when a value within that accuracy of \<open>exp x\<close> exceeds
  the largest float64; \<open>+inf\<close>, zero and NaN for \<open>+inf\<close>, \<open>-inf\<close> and NaN.
\<close>

fun exp_of :: "real \<Rightarrow> real \<Rightarrow> float64 \<Rightarrow> float64 \<Rightarrow> bool" where
  "exp_of eps eta (Fin x) (Fin y) = (y \<le> max_float \<and> \<bar>y - exp x\<bar> \<le> eps * exp x + eta)"
| "exp_of eps eta (Fin x) PInf = (max_float < exp x + (eps * exp x + eta))"
| "exp_of eps eta PInf w = (w = PInf)"
| "exp_of eps eta NInf w = (w = Fin 0)"
| "exp_of eps eta NaN w = (w = NaN)"
| "exp_of eps eta (Fin x) w = False"

text \<open>
  A math library for running the definitions: it rounds every result down by the unit
  roundoff \<open>2^-53\<close>.
\<close>

definition unit_roundoff :: real where
  "unit_roundoff = 1 / 2 ^ 53"

definition libm_down :: libm where
  "libm_down =
     \<lparr>c_log = (\<lambda>x. ln x - unit_roundoff * \<bar>ln x\<bar>),
      c_exp = (\<lambda>x. exp x * (1 - unit_roundoff))\<rparr>"

text \<open>
  A two-dimensional numpy array: \<open>X.shape[0]\<close> rows, \<open>X.shape[1]\<close> columns, and the
  entries in row-major order. An array with no row still has a column count.
\<close>

record ndarray =
  shape0 :: nat
  shape1 :: nat
  data :: "float64 list"

text \<open>An elementwise numpy function applied to an array: same shape, mapped entries.\<close>

definition elementwise :: "(float64 \<Rightarrow> float64) \<Rightarrow> ndarray \<Rightarrow> ndarray" where
  "elementwise f X = X\<lparr>data := map f (data X)\<rparr>"

text \<open>
  A pandas DataFrame as \<open>fit\<close> reads it: the column labels and the values.
  \<open>X.shape[1]\<close> of a DataFrame is the number of its column labels.
\<close>

record dataframe =
  columns :: "string list"
  frame_values :: "float64 list"

definition df_shape1 :: "dataframe \<Rightarrow> nat" where
  "df_shape1 X = length (columns X)"

section \<open>Errors\<close>

datatype error = NotFittedError | ValueError | AssertionError | AttributeError | IndexError

section \<open>Input validation of the host library\<close>

text \<open>
  \<open>sklearn.utils.validation.check_array(X)\<close> with its default arguments, on a
  two-dimensional numeric array: it raises ValueError when an entry is NaN or infinite,
  when the array has no row (\<open>ensure_min_samples = 1\<close>) or no column
  (\<open>ensure_min_features = 1\<close>), and returns the array otherwise.
\<close>

definition check_array :: "ndarray \<Rightarrow> error + ndarray" where
  "check_array X =
     (if \<not> list_all isfinite (data X) then Inl ValueError
      else if shape0 X < 1 then Inl ValueError
      else if shape1 X < 1 then Inl ValueError
      else Inr X)"

section \<open>The log transformer\<close>

text \<open>
  The attributes of a \<open>LogTransformer\<close> object. An attribute that has not been assigned
  is \<open>None\<close> here; \<open>__init__\<close> assigns nothing. The fields are the attributes
  \<open>feature_names_\<close> and \<open>n_features_in_\<close> (a name cannot end with an underscore here).
\<close>

record LogTransformer =
  feature_names :: "string list option"
  n_features_in :: "nat option"

definition LogTransformer_init :: LogTransformer where
  "LogTransformer_init = \<lparr>feature_names = None, n_features_in = None\<rparr>"

definition fit :: "LogTransformer \<Rightarrow> dataframe \<Rightarrow> LogTransformer" where
  "fit self X = self\<lparr>feature_names := Some (columns X), n_features_in := Some (df_shape1 X)\<rparr>"

text \<open>
  \<open>check_is_fitted(self)\<close>: raises NotFittedError unless the object has an attribute
  whose name ends with an underscore.
\<close>

definition check_is_fitted :: "LogTransformer \<Rightarrow> error + unit" where
  "check_is_fitted self =
     (if feature_names self = None \<and> n_features_in self = None then Inl NotFittedError
      else Inr ())"

text \<open>
  \<open>transform\<close>: the fitted check, the array validation, the assertion on the column
  count, then the logarithm. Reading an attribute that was never assigned raises
  AttributeError.
\<close>

definition transform :: "libm \<Rightarrow> LogTransformer \<Rightarrow> ndarray \<Rightarrow> error + ndarray" where
  "transform M self X =
     (case check_is_fitted self of
        Inl e \<Rightarrow> Inl e
      | Inr _ \<Rightarrow>
          (case check_array X of
             Inl e \<Rightarrow> Inl e
           | Inr X' \<Rightarrow>
               (case n_features_in self of
                  None \<Rightarrow> Inl AttributeError
                | Some n \<Rightarrow>
                    if n = shape1 X' then Inr (elementwise (np_log M) X')
                    else Inl AssertionError)))"

definition get_feature_names_out :: "LogTransformer \<Rightarrow> 'a \<Rightarrow> error + string list" where
  "get_feature_names_out self names =
     (case feature_names self of None \<Rightarrow> Inl AttributeError | Some ns \<Rightarrow> Inr ns)"

definition inverse_transform :: "libm \<Rightarrow> LogTransformer \<Rightarrow> ndarray \<Rightarrow> ndarray" where
  "inverse_transform M self X = elementwise (np_exp M) X"

text \<open>\<open>inverse_transform(transform(X))\<close> on one adapter.\<close>

definition round_trip :: "libm \<Rightarrow> LogTransformer \<Rightarrow> ndarray \<Rightarrow> error + ndarray" where
  "round_trip M self X =
     (case transform M self X of
        Inl e \<Rightarrow> Inl e
      | Inr Y \<Rightarrow> Inr (inverse_transform M self Y))"

section \<open>The pipeline after the log transformer\<close>

text \<open>
  An array whose entries are as many as its shape says.
\<close>

definition well_shaped :: "ndarray \<Rightarrow> bool" where
  "well_shaped X \<longleftrightarrow> length (data X) = shape0 X * shape1 X"

text \<open>
  \<open>np.hstack\<close> of two arrays with the same number of rows, which the column transformer
  applies to the outputs of its transformers: each row of the first followed by the same
  row of the second. A different number of rows is a ValueError.
\<close>

fun hstack_rows :: "nat \<Rightarrow> nat \<Rightarrow> nat \<Rightarrow> float64 list \<Rightarrow> float64 list \<Rightarrow> float64 list" where
  "hstack_rows 0 ca cb a b = []"
| "hstack_rows (Suc r) ca cb a b =
     take ca a @ take cb b @ hstack_rows r ca cb (drop ca a) (drop cb b)"

definition hstack :: "ndarray \<Rightarrow> ndarray \<Rightarrow> error + ndarray" where
  "hstack A B =
     (if shape0 A \<noteq> shape0 B then Inl ValueError
      else Inr \<lparr>shape0 = shape0 A, shape1 = shape1 A + shape1 B,
                data = hstack_rows (shape0 A) (shape1 A) (shape1 B) (data A) (data B)\<rparr>)"

text \<open>
  The notebook's \<open>preprocessing_pipeline\<close> applied to a table: the standardized columns,
  here the array \<open>standardized\<close> that the scaler returned, stacked with the log-transformed
  columns.
\<close>

definition preprocessing_pipeline ::
  "libm \<Rightarrow> LogTransformer \<Rightarrow> ndarray \<Rightarrow> ndarray \<Rightarrow> error + ndarray" where
  "preprocessing_pipeline M log_transformer standardized X_log =
     (case transform M log_transformer X_log of
        Inl e \<Rightarrow> Inl e
      | Inr logged \<Rightarrow> hstack standardized logged)"

text \<open>
  What the regressor does first with the features it is given, in \<open>fit\<close> and in
  \<open>predict\<close>: it validates them with \<open>check_array\<close>'s defaults.
\<close>

definition svm_reg_validate :: "ndarray \<Rightarrow> error + ndarray" where
  "svm_reg_validate X = check_array X"

text \<open>
  The notebook's \<open>svm_reg_pipeline\<close> up to the point where the regressor has accepted
  its features.
\<close>

definition svm_reg_pipeline_features ::
  "libm \<Rightarrow> LogTransformer \<Rightarrow> ndarray \<Rightarrow> ndarray \<Rightarrow> error + ndarray" where
  "svm_reg_pipeline_features M log_transformer standardized X_log =
     (case preprocessing_pipeline M log_transformer standardized X_log of
        Inl e \<Rightarrow> Inl e
      | Inr features \<Rightarrow> svm_reg_validate features)"

section \<open>Random number generation of the host library\<close>

text \<open>
  numpy's \<open>RandomState\<close>, as far as the notebook's calls draw from it. The generator's
  state is a type parameter and its operations are the fields of a record:
  \<open>RandomState(seed)\<close>, \<open>rng.permutation(n)\<close>, \<open>rng.randint(n)\<close> and the uniform draw
  from \<open>[0, 1)\<close>; each draw returns the value and the generator's next state.
\<close>

record 'g numpy_random =
  RandomState :: "int \<Rightarrow> 'g"
  permutation :: "'g \<Rightarrow> nat \<Rightarrow> nat list \<times> 'g"
  randint :: "'g \<Rightarrow> nat \<Rightarrow> nat \<times> 'g"
  random_sample :: "'g \<Rightarrow> real \<times> 'g"

text \<open>
  What numpy documents of the draws: a permutation of \<open>range(n)\<close>, an index below a
  positive bound, a number in the half-open unit interval.
\<close>

definition numpy_random_ok :: "'g numpy_random \<Rightarrow> bool" where
  "numpy_random_ok R \<longleftrightarrow>
     (\<forall>g n. mset (fst (permutation R g n)) = mset [0..<n])
     \<and> (\<forall>g n. 0 < n \<longrightarrow> fst (randint R g n) < n)
     \<and> (\<forall>g. 0 \<le> fst (random_sample R g) \<and> fst (random_sample R g) < 1)"

text \<open>
  \<open>check_random_state(seed)\<close>: \<open>None\<close> is numpy's global generator, an integer seeds a
  new generator.
\<close>

definition check_random_state :: "'g numpy_random \<Rightarrow> int option \<Rightarrow> 'g \<Rightarrow> 'g" where
  "check_random_state R seed global =
     (case seed of None \<Rightarrow> global | Some s \<Rightarrow> RandomState R s)"

text \<open>
  The global generator after a call that drew from \<open>check_random_state(seed)\<close> and left
  that generator in state \<open>rng'\<close>: advanced when the seed is \<open>None\<close>, untouched otherwise.
\<close>

definition global_after :: "int option \<Rightarrow> 'g \<Rightarrow> 'g \<Rightarrow> 'g" where
  "global_after seed global rng' = (case seed of None \<Rightarrow> rng' | Some s \<Rightarrow> global)"

text \<open>
  A small generator on which the definitions can be run: the state is a counter,
  \<open>permutation\<close> rotates \<open>range(n)\<close> by the counter, \<open>randint\<close> reduces it modulo the bound.
\<close>

definition counter_random :: "nat numpy_random" where
  "counter_random =
     \<lparr>RandomState = (\<lambda>s. nat \<bar>s\<bar>),
      permutation = (\<lambda>g n. (rotate g [0..<n], Suc g)),
      randint = (\<lambda>g n. (g mod n, Suc g)),
      random_sample = (\<lambda>g. (real (g mod 10) / 10, Suc g))\<rparr>"

section \<open>Train and test split\<close>

text \<open>
  \<open>_validate_shuffle_split(n_samples, test_size, train_size=None)\<close> for a float
  \<open>test_size\<close>: the test count is \<open>ceil(test_size * n_samples)\<close>, the train count is the
  rest, and an empty train set is a ValueError.
\<close>

definition validate_shuffle_split :: "nat \<Rightarrow> real \<Rightarrow> error + nat \<times> nat" where
  "validate_shuffle_split n_samples test_size =
     (if test_size \<le> 0 \<or> 1 \<le> test_size then Inl ValueError
      else
        let n_test = nat \<lceil>test_size * real n_samples\<rceil>;
            n_train = n_samples - n_test
        in if n_train = 0 then Inl ValueError else Inr (n_train, n_test))"

text \<open>
  \<open>ShuffleSplit\<close>'s one split: the first \<open>n_test\<close> entries of a permutation of the row
  positions are the test rows, the next \<open>n_train\<close> the train rows.
\<close>

definition shuffle_split_indices ::
  "'g numpy_random \<Rightarrow> nat \<Rightarrow> nat \<Rightarrow> nat \<Rightarrow> 'g \<Rightarrow> (nat list \<times> nat list) \<times> 'g" where
  "shuffle_split_indices R n_samples n_train n_test rng =
     (let (perm, rng') = permutation R rng n_samples;
          ind_test = take n_test perm;
          ind_train = take n_train (drop n_test perm)
      in ((ind_train, ind_test), rng'))"

text \<open>
  The rows at the given positions, in that order. The caller checks the positions
  against the table first: a position outside it is an IndexError.
\<close>

definition safe_indexing :: "'row list \<Rightarrow> nat list \<Rightarrow> 'row list" where
  "safe_indexing X idx = map (\<lambda>i. X ! i) idx"

text \<open>
  \<open>train_test_split(X, test_size, random_state)\<close> on a table given as the list of its
  rows. The result is the train table and the test table, with the positions they were
  taken from, and numpy's global generator after the call.
\<close>

definition train_test_split ::
  "'g numpy_random \<Rightarrow> 'row list \<Rightarrow> real \<Rightarrow> int option \<Rightarrow> 'g
     \<Rightarrow> (error + ('row list \<times> 'row list) \<times> (nat list \<times> nat list)) \<times> 'g" where
  "train_test_split R X test_size random_state global =
     (case validate_shuffle_split (length X) test_size of
        Inl e \<Rightarrow> (Inl e, global)
      | Inr (n_train, n_test) \<Rightarrow>
          let rng = check_random_state R random_state global;
              ((ind_train, ind_test), rng') =
                 shuffle_split_indices R (length X) n_train n_test rng
          in if list_all (\<lambda>i. i < length X) (ind_train @ ind_test)
             then (Inr ((safe_indexing X ind_train, safe_indexing X ind_test),
                        (ind_train, ind_test)),
                   global_after random_state global rng')
             else (Inl IndexError, global_after random_state global rng'))"

text \<open>
  The notebook's call: \<open>train_test_split(concrete_df, test_size=0.2, random_state=42)\<close>;
  the test fraction 0.2 is the real number 1/5.
\<close>

definition split_train_test ::
  "'g numpy_random \<Rightarrow> 'row list \<Rightarrow> 'g
     \<Rightarrow> (error + ('row list \<times> 'row list) \<times> (nat list \<times> nat list)) \<times> 'g" where
  "split_train_test R concrete_df global = train_test_split R concrete_df (1 / 5) (Some 42) global"

section \<open>Randomized search\<close>

text \<open>
  A value of \<open>param_distributions\<close>: a list to choose from, or
  \<open>scipy.stats.uniform(loc, scale)\<close>. A sampled parameter is a string or a number.
\<close>

datatype distribution = Choice "string list" | Uniform real real

datatype param_value = Str string | Num real

definition c_lower_bound :: real where
  "c_lower_bound = 1 / 100"

definition c_upper_bound :: real where
  "c_upper_bound = 15"

definition param_distributions :: "(string \<times> distribution) list" where
  "param_distributions =
     [(''svm_reg__kernel'', Choice [''rbf'', ''linear'']),
      (''svm_reg__gamma'', Choice [''auto'', ''scale'']),
      (''svm_reg__C'', Uniform c_lower_bound (c_upper_bound - c_lower_bound))]"

text \<open>
  One parameter drawn as \<open>ParameterSampler\<close> draws it: \<open>v.rvs(random_state=rng)\<close> for a
  distribution, which for \<open>uniform(loc, scale)\<close> is \<open>loc + scale * u\<close> with \<open>u\<close> from
  \<open>[0, 1)\<close>; \<open>v[rng.randint(len(v))]\<close> for a list.
\<close>

fun rvs :: "'g numpy_random \<Rightarrow> distribution \<Rightarrow> 'g \<Rightarrow> (error + param_value) \<times> 'g" where
  "rvs R (Uniform loc scale) g =
     (if scale < 0 then (Inl ValueError, g)
      else let (u, g') = random_sample R g in (Inr (Num (loc + scale * u)), g'))"
| "rvs R (Choice vs) g =
     (if vs = [] then (Inl ValueError, g)
      else let (i, g') = randint R g (length vs)
           in (if i < length vs then Inr (Str (vs ! i)) else Inl IndexError, g'))"

text \<open>The parameters of one candidate, drawn in the order of the items given.\<close>

fun sample_items ::
  "'g numpy_random \<Rightarrow> (string \<times> distribution) list \<Rightarrow> 'g
     \<Rightarrow> (error + (string \<times> param_value) list) \<times> 'g" where
  "sample_items R [] g = (Inr [], g)"
| "sample_items R ((k, v) # items) g =
     (case rvs R v g of
        (Inl e, g') \<Rightarrow> (Inl e, g')
      | (Inr x, g') \<Rightarrow>
          (case sample_items R items g' of
             (Inl e, g'') \<Rightarrow> (Inl e, g'')
           | (Inr params, g'') \<Rightarrow> (Inr ((k, x) # params), g'')))"

text \<open>
  \<open>ParameterSampler(param_distributions, n_iter, random_state)\<close> for one dictionary
  some value of which is a distribution: \<open>n_iter\<close> candidates, each drawn over the
  items sorted by key.
\<close>

fun ParameterSampler ::
  "'g numpy_random \<Rightarrow> (string \<times> distribution) list \<Rightarrow> nat \<Rightarrow> 'g
     \<Rightarrow> (error + (string \<times> param_value) list list) \<times> 'g" where
  "ParameterSampler R dists 0 g = (Inr [], g)"
| "ParameterSampler R dists (Suc n) g =
     (case sample_items R (sort_key fst dists) g of
        (Inl e, g') \<Rightarrow> (Inl e, g')
      | (Inr params, g') \<Rightarrow>
          (case ParameterSampler R dists n g' of
             (Inl e, g'') \<Rightarrow> (Inl e, g'')
           | (Inr rest, g'') \<Rightarrow> (Inr (params # rest), g'')))"

text \<open>
  The position of the best mean test score: the first one that no later score exceeds
  and that exceeds every earlier one (rank 1, first among ties).
\<close>

fun best_from :: "nat \<Rightarrow> real \<Rightarrow> nat \<Rightarrow> real list \<Rightarrow> nat" where
  "best_from b s i [] = b"
| "best_from b s i (x # xs) =
     (if s < x then best_from i x (Suc i) xs else best_from b s (Suc i) xs)"

definition best_index :: "real list \<Rightarrow> nat option" where
  "best_index scores = (case scores of [] \<Rightarrow> None | x # xs \<Rightarrow> Some (best_from 0 x 1 xs))"

text \<open>
  \<open>SVR.fit\<close>: before it trains, the regressor draws the seed it hands to libsvm,
  \<open>check_random_state(self.random_state).randint(np.iinfo("i").max)\<close>. The notebook's
  \<open>SVR()\<close> has no \<open>random_state\<close>, so the draw is from numpy's global generator.
\<close>

definition libsvm_seed_bound :: nat where
  "libsvm_seed_bound = 2147483647"

definition svr_draw_seed :: "'g numpy_random \<Rightarrow> 'g \<Rightarrow> nat \<times> 'g" where
  "svr_draw_seed R global = randint R global libsvm_seed_bound"

text \<open>The global generator after one fit has drawn its seed.\<close>

definition after_fit :: "'g numpy_random \<Rightarrow> 'g \<Rightarrow> 'g" where
  "after_fit R global = snd (svr_draw_seed R global)"

text \<open>
  The cross-validation of one candidate. For each fold in turn the pipeline is fitted on
  the other folds and scored on this one; the fit draws its libsvm seed. What the fitted
  pipeline scores is the parameter \<open>fit_and_score\<close>, a function of the candidate, the
  training data, the fold and the seed drawn. With \<open>cv=5\<close> the folds are consecutive
  blocks of rows, chosen without random numbers.
\<close>

fun cross_validate ::
  "'g numpy_random \<Rightarrow> ((string \<times> param_value) list \<Rightarrow> 'row list \<Rightarrow> real list \<Rightarrow> nat \<Rightarrow> nat \<Rightarrow> real)
     \<Rightarrow> (string \<times> param_value) list \<Rightarrow> 'row list \<Rightarrow> real list \<Rightarrow> nat list \<Rightarrow> 'g
     \<Rightarrow> real list \<times> 'g" where
  "cross_validate R fit_and_score params X y [] global = ([], global)"
| "cross_validate R fit_and_score params X y (k # folds) global =
     (let (seed, global') = svr_draw_seed R global;
          (scores, global'') = cross_validate R fit_and_score params X y folds global'
      in (fit_and_score params X y k seed # scores, global''))"

text \<open>The mean test score of every candidate, in the order of the candidates.\<close>

fun evaluate_candidates ::
  "'g numpy_random \<Rightarrow> ((string \<times> param_value) list \<Rightarrow> 'row list \<Rightarrow> real list \<Rightarrow> nat \<Rightarrow> nat \<Rightarrow> real)
     \<Rightarrow> 'row list \<Rightarrow> real list \<Rightarrow> nat \<Rightarrow> (string \<times> param_value) list list \<Rightarrow> 'g
     \<Rightarrow> real list \<times> 'g" where
  "evaluate_candidates R fit_and_score X y cv [] global = ([], global)"
| "evaluate_candidates R fit_and_score X y cv (params # candidates) global =
     (let (scores, global') = cross_validate R fit_and_score params X y [0..<cv] global;
          (means, global'') = evaluate_candidates R fit_and_score X y cv candidates global'
      in (sum_list scores / real cv # means, global''))"

text \<open>
  \<open>RandomizedSearchCV(...).fit(X, y)\<close>, up to \<open>best_params_\<close> and \<open>best_score_\<close>: the
  candidates are sampled, then evaluated one after the other, and the best one is fitted
  once more on all the training data, which draws one more libsvm seed. Fewer than two
  folds, or fewer rows than folds, is a ValueError. The result comes with numpy's global
  generator after the call.
\<close>

definition RandomizedSearchCV_fit ::
  "'g numpy_random \<Rightarrow> ((string \<times> param_value) list \<Rightarrow> 'row list \<Rightarrow> real list \<Rightarrow> nat \<Rightarrow> nat \<Rightarrow> real)
     \<Rightarrow> (string \<times> distribution) list \<Rightarrow> nat \<Rightarrow> nat \<Rightarrow> int option \<Rightarrow> 'row list \<Rightarrow> real list \<Rightarrow> 'g
     \<Rightarrow> (error + (string \<times> param_value) list \<times> real) \<times> 'g" where
  "RandomizedSearchCV_fit R fit_and_score dists n_iter cv random_state X y global =
     (if cv < 2 then (Inl ValueError, global)
      else
        (case ParameterSampler R dists n_iter (check_random_state R random_state global) of
           (Inl e, rng') \<Rightarrow> (Inl e, global_after random_state global rng')
         | (Inr candidates, rng') \<Rightarrow>
             (if length X < cv then (Inl ValueError, global_after random_state global rng')
              else
                (let (mean_test_score, global') =
                       evaluate_candidates R fit_and_score X y cv candidates
                         (global_after random_state global rng')
                 in (case best_index mean_test_score of
                       None \<Rightarrow> (Inl ValueError, global')
                     | Some i \<Rightarrow>
                         (let (seed, global'') = svr_draw_seed R global'
                          in (Inr (candidates ! i, mean_test_score ! i), global'')))))))"

text \<open>
  The notebook's search: \<open>n_iter=50\<close>, \<open>cv=5\<close>, \<open>random_state=42\<close>, fitted on the training
  set.
\<close>

definition svr_rnd_search_fit ::
  "'g numpy_random \<Rightarrow> ((string \<times> param_value) list \<Rightarrow> 'row list \<Rightarrow> real list \<Rightarrow> nat \<Rightarrow> nat \<Rightarrow> real)
     \<Rightarrow> 'row list \<Rightarrow> real list \<Rightarrow> 'g
     \<Rightarrow> (error + (string \<times> param_value) list \<times> real) \<times> 'g" where
  "svr_rnd_search_fit R fit_and_score X_train y_train global =
     RandomizedSearchCV_fit R fit_and_score param_distributions 50 5 (Some 42)
       X_train y_train global"

text \<open>
  A score that does not depend on the libsvm seed, as that of a support-vector regression
  without probability estimates: libsvm uses its seed for those only.
\<close>

definition seed_free ::
  "((string \<times> param_value) list \<Rightarrow> 'row list \<Rightarrow> real list \<Rightarrow> nat \<Rightarrow> nat \<Rightarrow> real) \<Rightarrow> bool" where
  "seed_free fit_and_score \<longleftrightarrow>
     (\<forall>params X y k s s'. fit_and_score params X y k s = fit_and_score params X y k s')"

text \<open>
  A score to run the search on: the negated regularization strength of the candidate,
  whatever the data, the fold and the seed.
\<close>

fun score_by_C :: "(string \<times> param_value) list \<Rightarrow> 'row list \<Rightarrow> real list \<Rightarrow> nat \<Rightarrow> nat \<Rightarrow> real" where
  "score_by_C ((k, Num c) # params) X y j seed = - c"
| "score_by_C params X y j seed = 0"

text \<open>
  A candidate of the notebook's configuration space: the three keys, the regularization
  strength in \<open>[0.01, 15.0)\<close>, the gamma policy and the kernel among the listed names.
\<close>

fun candidate_in_space :: "(string \<times> param_value) list \<Rightarrow> bool" where
  "candidate_in_space [(kc, Num c), (kg, Str g), (kk, Str k)] =
     (kc = ''svm_reg__C'' \<and> kg = ''svm_reg__gamma'' \<and> kk = ''svm_reg__kernel''
      \<and> 1 / 100 \<le> c \<and> c < 15
      \<and> (g = ''auto'' \<or> g = ''scale'') \<and> (k = ''rbf'' \<or> k = ''linear''))"
| "candidate_in_space params = False"

section \<open>Evaluation on the test set\<close>

text \<open>
  Arithmetic on float64 values where a special value can take part: the sum, the
  product, \<open>np.sqrt\<close> (NaN on a negative number; numpy warns, it does not raise) and the
  comparison \<open>x <= y\<close>, false when either side is NaN.
\<close>

fun np_sqrt :: "float64 \<Rightarrow> float64" where
  "np_sqrt (Fin x) = (if 0 \<le> x then Fin (sqrt x) else NaN)"
| "np_sqrt PInf = PInf"
| "np_sqrt NInf = NaN"
| "np_sqrt NaN = NaN"

fun fadd :: "float64 \<Rightarrow> float64 \<Rightarrow> float64" where
  "fadd (Fin a) (Fin b) = Fin (a + b)"
| "fadd NaN y = NaN"
| "fadd x NaN = NaN"
| "fadd PInf NInf = NaN"
| "fadd NInf PInf = NaN"
| "fadd PInf y = PInf"
| "fadd x PInf = PInf"
| "fadd NInf y = NInf"
| "fadd x NInf = NInf"

fun fmul :: "float64 \<Rightarrow> float64 \<Rightarrow> float64" where
  "fmul (Fin a) (Fin b) = Fin (a * b)"
| "fmul NaN y = NaN"
| "fmul x NaN = NaN"
| "fmul (Fin a) PInf = (if 0 < a then PInf else if a < 0 then NInf else NaN)"
| "fmul (Fin a) NInf = (if 0 < a then NInf else if a < 0 then PInf else NaN)"
| "fmul PInf (Fin b) = (if 0 < b then PInf else if b < 0 then NInf else NaN)"
| "fmul NInf (Fin b) = (if 0 < b then NInf else if b < 0 then PInf else NaN)"
| "fmul PInf PInf = PInf"
| "fmul PInf NInf = NInf"
| "fmul NInf PInf = NInf"
| "fmul NInf NInf = PInf"

fun fle :: "float64 \<Rightarrow> float64 \<Rightarrow> bool" where
  "fle (Fin a) (Fin b) = (a \<le> b)"
| "fle NaN y = False"
| "fle x NaN = False"
| "fle NInf y = True"
| "fle x PInf = True"
| "fle PInf y = False"
| "fle x NInf = False"

text \<open>
  \<open>mean_squared_error(y_true, y_pred, squared)\<close> on two columns of finite numbers: a
  ValueError when the lengths differ or there is no sample, else the mean of the squared
  differences, or its square root when \<open>squared\<close> is false.
\<close>

definition mean_squared_error :: "real list \<Rightarrow> real list \<Rightarrow> bool \<Rightarrow> error + real" where
  "mean_squared_error y_true y_pred squared =
     (if length y_true \<noteq> length y_pred \<or> y_true = [] then Inl ValueError
      else
        let mse = sum_list (map2 (\<lambda>t p. (t - p)\<^sup>2) y_true y_pred) / real (length y_true)
        in Inr (if squared then mse else sqrt mse))"

text \<open>The notebook's \<open>rmse = mean_squared_error(y_test["csMPa"], y_pred, squared=False)\<close>.\<close>

definition rmse :: "real list \<Rightarrow> real list \<Rightarrow> error + real" where
  "rmse y_test y_pred = mean_squared_error y_test y_pred False"

definition confidence :: real where
  "confidence = 95 / 100"

text \<open>
  \<open>(y_pred - y_test["csMPa"]) ** 2\<close>: elementwise on equal lengths; a \<open>y_pred\<close> of length
  one is broadcast over the series; any other pair of lengths is a ValueError.
\<close>

definition squared_errors :: "real list \<Rightarrow> real list \<Rightarrow> error + real list" where
  "squared_errors y_pred y_test =
     (if length y_pred = length y_test then Inr (map2 (\<lambda>p t. (p - t)\<^sup>2) y_pred y_test)
      else case y_pred of
             [p] \<Rightarrow> Inr (map (\<lambda>t. (p - t)\<^sup>2) y_test)
           | _ \<Rightarrow> Inl ValueError)"

text \<open>\<open>Series.mean()\<close>: NaN for an empty series.\<close>

definition series_mean :: "real list \<Rightarrow> float64" where
  "series_mean xs = (if xs = [] then NaN else Fin (sum_list xs / real (length xs)))"

text \<open>
  \<open>scipy.stats.sem(a)\<close>: the sample standard deviation with \<open>ddof=1\<close> over the square
  root of the sample count; with fewer than two samples the variance is \<open>0/0\<close>, NaN.
\<close>

definition stats_sem :: "real list \<Rightarrow> float64" where
  "stats_sem a =
     (let n = length a
      in if n < 2 then NaN
         else
           let m = sum_list a / real n;
               var = sum_list (map (\<lambda>x. (x - m)\<^sup>2) a) / real (n - 1)
           in Fin (sqrt var / sqrt (real n)))"

text \<open>
  \<open>scipy.stats.t.ppf(q, df, loc, scale)\<close>. The quantile function of Student's t
  distribution with \<open>df\<close> degrees of freedom is the parameter \<open>quantile\<close>; scipy scales
  and shifts it, and answers NaN when \<open>df\<close> or \<open>scale\<close> is not positive or \<open>loc\<close> is NaN.
\<close>

definition t_ppf ::
  "(real \<Rightarrow> int \<Rightarrow> real) \<Rightarrow> real \<Rightarrow> int \<Rightarrow> float64 \<Rightarrow> float64 \<Rightarrow> float64" where
  "t_ppf quantile q df loc scale =
     (if 0 < df \<and> is_positive scale \<and> loc \<noteq> NaN then
        (if 0 < q \<and> q < 1 then fadd (fmul (Fin (quantile q df)) scale) loc
         else if q = 0 then fadd (fmul NInf scale) loc
         else if q = 1 then fadd (fmul PInf scale) loc
         else NaN)
      else NaN)"

text \<open>
  \<open>scipy.stats.t.interval(alpha, df, loc, scale)\<close>: the quantiles at \<open>(1 - alpha) / 2\<close>
  and \<open>(1 + alpha) / 2\<close>.
\<close>

definition t_interval ::
  "(real \<Rightarrow> int \<Rightarrow> real) \<Rightarrow> real \<Rightarrow> int \<Rightarrow> float64 \<Rightarrow> float64 \<Rightarrow> error + float64 \<times> float64" where
  "t_interval quantile alpha df loc scale =
     (if 1 < alpha \<or> alpha < 0 then Inl ValueError
      else Inr (t_ppf quantile ((1 - alpha) / 2) df loc scale,
                t_ppf quantile ((1 + alpha) / 2) df loc scale))"

text \<open>The notebook's \<open>confidence_interval\<close>: the square roots of the interval's bounds.\<close>

definition confidence_interval ::
  "(real \<Rightarrow> int \<Rightarrow> real) \<Rightarrow> real list \<Rightarrow> real list \<Rightarrow> error + float64 \<times> float64" where
  "confidence_interval quantile y_pred y_test =
     (case squared_errors y_pred y_test of
        Inl e \<Rightarrow> Inl e
      | Inr se \<Rightarrow>
          (case t_interval quantile confidence (int (length se) - 1)
                  (series_mean se) (stats_sem se) of
             Inl e \<Rightarrow> Inl e
           | Inr (lo, hi) \<Rightarrow> Inr (np_sqrt lo, np_sqrt hi)))"

text \<open>
  Student's t quantile function in the two cases with a closed form: one degree of
  freedom (the Cauchy distribution) and two degrees of freedom. Each is the parameter
  \<open>quantile\<close> for a test set of that many rows plus one.
\<close>

definition t_quantile_df1 :: "real \<Rightarrow> int \<Rightarrow> real" where
  "t_quantile_df1 q df = tan (pi * (q - 1 / 2))"

definition t_quantile_df2 :: "real \<Rightarrow> int \<Rightarrow> real" where
  "t_quantile_df2 q df = (2 * q - 1) / sqrt (2 * q * (1 - q))"

text \<open>
  The bounds of a reported interval are ordered and non-negative: the lower bound is at
  most the upper one and zero is at most each.
\<close>

definition interval_ordered_nonneg :: "error + float64 \<times> float64 \<Rightarrow> bool" where
  "interval_ordered_nonneg r =
     (case r of
        Inl e \<Rightarrow> False
      | Inr (lo, hi) \<Rightarrow> fle lo hi \<and> fle (Fin 0) lo \<and> fle (Fin 0) hi)"

section \<open>Sample inputs\<close>

text \<open>The notebook's log-transformed feature table: the single column \<open>age\<close>.\<close>

definition age_frame :: dataframe where
  "age_frame = \<lparr>columns = [''age''], frame_values = [Fin 28, Fin 3]\<rparr>"

definition age_frame_later :: dataframe where
  "age_frame_later = \<lparr>columns = [''age''], frame_values = [Fin 90, Fin 365, Fin 7]\<rparr>"

definition two_ages :: ndarray where
  "two_ages = \<lparr>shape0 = 2, shape1 = 1, data = [Fin 28, Fin 3]\<rparr>"

definition two_by_two :: ndarray where
  "two_by_two = \<lparr>shape0 = 2, shape1 = 2, data = [Fin 1, Fin 2, Fin 3, Fin 4]\<rparr>"

text \<open>A record table of five rows, two columns shown.\<close>

definition five_rows :: "real list list" where
  "five_rows = [[540, 80], [332, 40], [198, 45], [266, 47], [380, 36]]"

section \<open>Properties of the log transformer\<close>

lemma transform_fit:
  "transform M (fit self T) X =
     (if \<not> list_all isfinite (data X) \<or> shape0 X < 1 \<or> shape1 X < 1 then Inl ValueError
      else if df_shape1 T = shape1 X then Inr (elementwise (np_log M) X)
      else Inl AssertionError)"
  by (simp add: transform_def fit_def check_is_fitted_def check_array_def)

lemma np_log_nonpositive:
  "isfinite v \<Longrightarrow> is_nonpositive v \<Longrightarrow> np_log M v = (if v = Fin 0 then NInf else NaN)"
  by (cases v) auto

lemma check_array_Inr:
  "check_array X = Inr Y \<Longrightarrow>
     Y = X \<and> list_all isfinite (data X) \<and> 1 \<le> shape0 X \<and> 1 \<le> shape1 X"
  by (auto simp add: check_array_def split: if_splits)

lemma libm_down_ok: "libm_ok libm_down unit_roundoff 0"
  by (simp add: libm_ok_def libm_down_def unit_roundoff_def algebra_simps)

lemma max_float_ge: "2 ^ 1023 \<le> max_float"
proof -
  have "(1 :: real) \<le> 2 - 1 / 2 ^ 52" by simp
  then have "1 * 2 ^ 1023 \<le> (2 - 1 / 2 ^ 52) * (2 ^ 1023 :: real)"
    by (rule mult_right_mono) simp
  then show ?thesis by (simp add: max_float_def)
qed

lemma max_float_less: "max_float < 2 ^ 1024"
proof -
  have "(2 - 1 / 2 ^ 52) * (2 ^ 1023 :: real) < 2 * 2 ^ 1023"
    by (rule mult_strict_right_mono) simp_all
  then show ?thesis by (simp add: max_float_def)
qed

subsection \<open>Accuracy of the round trip on one entry\<close>

lemma abs_exp_minus_one: "\<bar>exp t - 1\<bar> \<le> exp \<bar>t\<bar> - (1 :: real)"
proof (cases "0 \<le> t")
  case True
  then show ?thesis by simp
next
  case False
  then have neg: "t < 0" by simp
  have pos: "0 < exp t" by simp
  have "0 \<le> (exp t - 1)\<^sup>2" by simp
  then have "2 * exp t \<le> exp t * exp t + 1" by (simp add: power2_eq_square algebra_simps)
  then have "2 * exp t \<le> exp t * (exp t + exp (- t))"
    by (simp add: algebra_simps exp_minus)
  then have "2 \<le> exp t + exp (- t)" using pos by (simp add: mult.commute)
  moreover have "exp t \<le> 1" using neg by simp
  ultimately show ?thesis using neg by simp
qed

lemma exp_near:
  fixes l :: real
  assumes "0 < x" and "\<bar>l - ln x\<bar> \<le> d"
  shows "\<bar>exp l - x\<bar> \<le> x * (exp d - 1)" and "exp l \<le> x * exp d"
proof -
  have e: "exp l = x * exp (l - ln x)" using assms(1) by (simp add: exp_diff)
  have "\<bar>exp (l - ln x) - 1\<bar> \<le> exp \<bar>l - ln x\<bar> - 1" by (rule abs_exp_minus_one)
  also have "\<dots> \<le> exp d - 1" using assms(2) by simp
  finally have b: "\<bar>exp (l - ln x) - 1\<bar> \<le> exp d - 1" .
  have "exp l - x = x * (exp (l - ln x) - 1)" by (simp add: e algebra_simps)
  then have "\<bar>exp l - x\<bar> = \<bar>x\<bar> * \<bar>exp (l - ln x) - 1\<bar>" by (simp only: abs_mult)
  then have "\<bar>exp l - x\<bar> = x * \<bar>exp (l - ln x) - 1\<bar>" using assms(1) by simp
  also have "\<dots> \<le> x * (exp d - 1)" using b assms(1) by (simp add: mult_left_mono)
  finally show "\<bar>exp l - x\<bar> \<le> x * (exp d - 1)" .
  have "l - ln x \<le> d" using assms(2) by linarith
  then have "exp (l - ln x) \<le> exp d" by simp
  then show "exp l \<le> x * exp d" using assms(1) by (simp add: e mult_left_mono)
qed

lemma round_trip_entry:
  assumes "libm_ok M eps eta" and "0 < x"
  shows "\<bar>c_exp M (c_log M x) - x\<bar> \<le> tolerance eps eta x"
proof -
  let ?l = "c_log M x"
  let ?d = "eps * \<bar>ln x\<bar>"
  have eps: "0 \<le> eps" using assms(1) by (simp add: libm_ok_def)
  have l: "\<bar>?l - ln x\<bar> \<le> ?d" using assms by (simp add: libm_ok_def)
  have y: "\<bar>c_exp M ?l - exp ?l\<bar> \<le> eps * exp ?l + eta" using assms(1) by (simp add: libm_ok_def)
  note n = exp_near [OF assms(2) l]
  have "eps * exp ?l \<le> eps * (x * exp ?d)" using n(2) eps by (rule mult_left_mono)
  with y have y': "\<bar>c_exp M ?l - exp ?l\<bar> \<le> eps * (x * exp ?d) + eta" by linarith
  have "\<bar>c_exp M ?l - x\<bar> \<le> \<bar>c_exp M ?l - exp ?l\<bar> + \<bar>exp ?l - x\<bar>" by linarith
  also have "\<dots> \<le> (eps * (x * exp ?d) + eta) + x * (exp ?d - 1)" using y' n(1) by linarith
  also have "\<dots> = tolerance eps eta x" by (simp add: tolerance_def algebra_simps)
  finally show ?thesis .
qed

lemma round_trip_value:
  assumes "libm_ok M eps eta" and "isfinite v" and "is_positive v"
  shows "recovers eps eta v (np_exp M (np_log M v))"
    and "below_overflow eps eta v \<Longrightarrow> within_tolerance eps eta v (np_exp M (np_log M v))"
proof -
  from assms(2,3) obtain x where v: "v = Fin x" "0 < x" by (cases v) auto
  note t = round_trip_entry [OF assms(1) v(2)]
  show "recovers eps eta v (np_exp M (np_log M v))"
  proof (cases "max_float < c_exp M (c_log M x)")
    case True
    moreover have "c_exp M (c_log M x) \<le> x + tolerance eps eta x" using t by linarith
    ultimately show ?thesis using v by simp
  next
    case False
    then show ?thesis using t v by simp
  qed
  assume "below_overflow eps eta v"
  with v have "x + tolerance eps eta x \<le> max_float" by simp
  with t have "c_exp M (c_log M x) \<le> max_float" by linarith
  with t v show "within_tolerance eps eta v (np_exp M (np_log M v))" by simp
qed

lemma round_trip_list:
  assumes "libm_ok M eps eta"
  shows "list_all isfinite xs \<Longrightarrow> list_all is_positive xs
    \<Longrightarrow> list_all2 (recovers eps eta) xs (map (np_exp M \<circ> np_log M) xs)"
    and "list_all isfinite xs \<Longrightarrow> list_all is_positive xs
    \<Longrightarrow> list_all (below_overflow eps eta) xs
    \<Longrightarrow> list_all2 (within_tolerance eps eta) xs (map (np_exp M \<circ> np_log M) xs)"
  by (induction xs) (simp_all add: round_trip_value [OF assms])

lemma below_overflow_sample:
  assumes "1 \<le> x" and "x \<le> 1000"
  shows "below_overflow unit_roundoff 0 (Fin x)"
proof -
  have u: "0 \<le> unit_roundoff" "unit_roundoff \<le> 1 / 1000" by (simp_all add: unit_roundoff_def)
  have "0 \<le> ln x" using assms(1) by simp
  moreover have "ln x \<le> x - 1" using assms(1) by (intro ln_le_minus_one) simp
  ultimately have l: "\<bar>ln x\<bar> \<le> 1000" using assms(2) by simp
  have "unit_roundoff * \<bar>ln x\<bar> \<le> 1 / 1000 * 1000"
    using u l by (intro mult_mono) simp_all
  then have "exp (unit_roundoff * \<bar>ln x\<bar>) \<le> exp 1" by simp
  also have "\<dots> \<le> 3" by (rule exp_le)
  finally have e: "exp (unit_roundoff * \<bar>ln x\<bar>) \<le> 3" .
  have "(1 + unit_roundoff) * exp (unit_roundoff * \<bar>ln x\<bar>) \<le> 2 * 3"
    using u e by (intro mult_mono) simp_all
  then have "(1 + unit_roundoff) * exp (unit_roundoff * \<bar>ln x\<bar>) - 1 \<le> 5" by simp
  then have "x * ((1 + unit_roundoff) * exp (unit_roundoff * \<bar>ln x\<bar>) - 1) \<le> x * 5"
    using assms(1) by (intro mult_left_mono) simp_all
  then have "x + tolerance unit_roundoff 0 x \<le> 6000"
    using assms(2) by (simp add: tolerance_def)
  also have "(6000 :: real) \<le> 2 ^ 13" by simp
  also have "(2 :: real) ^ 13 \<le> 2 ^ 1023" by (rule power_increasing) simp_all
  also have "\<dots> \<le> max_float" by (rule max_float_ge)
  finally show ?thesis by simp
qed

subsection \<open>Round trip\<close>

text \<open>
  The round trip fails on a matrix the validation rejects: one with no row (all of whose
  entries are positive, there being none) and one whose entry is \<open>+inf\<close>, both with the
  fit-time column count.
\<close>

theorem round_trip_counterexample:
  "list_all is_positive (data \<lparr>shape0 = 0, shape1 = 1, data = []\<rparr>)
   \<and> shape1 \<lparr>shape0 = 0, shape1 = 1, data = []\<rparr> = df_shape1 age_frame
   \<and> round_trip libm_down (fit LogTransformer_init age_frame)
        \<lparr>shape0 = 0, shape1 = 1, data = []\<rparr> = Inl ValueError
   \<and> list_all is_positive (data \<lparr>shape0 = 1, shape1 = 1, data = [PInf]\<rparr>)
   \<and> round_trip libm_down (fit LogTransformer_init age_frame)
        \<lparr>shape0 = 1, shape1 = 1, data = [PInf]\<rparr> = Inl ValueError"
  by (simp add: round_trip_def transform_fit df_shape1_def age_frame_def)

text \<open>
  C1 (amended). For a LogTransformer fitted on a table \<open>T\<close> and every matrix \<open>X\<close> with at
  least one row and one column, the fit-time column count, and only finite, strictly
  positive entries, \<open>inverse_transform(transform(X))\<close> recovers \<open>X\<close> within floating-point
  tolerance: it returns a matrix of the same shape, each entry of which is finite and
  within \<open>x * ((1 + eps) * exp(eps * |ln x|) - 1) + eta\<close> of the entry \<open>x\<close> it comes from,
  when the logarithm and the exponential are accurate to \<open>eps\<close> and \<open>eta\<close>. Only for an
  entry within that distance of the largest finite float64 may the result be \<open>+inf\<close>
  instead.
\<close>

theorem round_trip_recovers:
  assumes "libm_ok M eps eta"
    and "list_all isfinite (data X)" and "list_all is_positive (data X)"
    and "1 \<le> shape0 X" and "1 \<le> shape1 X" and "shape1 X = df_shape1 T"
  shows "\<exists>Y. round_trip M (fit self T) X = Inr Y
    \<and> shape0 Y = shape0 X \<and> shape1 Y = shape1 X
    \<and> list_all2 (recovers eps eta) (data X) (data Y)
    \<and> (list_all (below_overflow eps eta) (data X) \<longrightarrow>
          list_all2 (within_tolerance eps eta) (data X) (data Y))"
proof -
  let ?Y = "inverse_transform M (fit self T) (elementwise (np_log M) X)"
  have "transform M (fit self T) X = Inr (elementwise (np_log M) X)"
    using assms(2,4,5,6) by (simp add: transform_fit)
  then have r: "round_trip M (fit self T) X = Inr ?Y" by (simp add: round_trip_def)
  have d: "data ?Y = map (np_exp M \<circ> np_log M) (data X)"
    by (simp add: inverse_transform_def elementwise_def)
  have a: "list_all2 (recovers eps eta) (data X) (data ?Y)"
    unfolding d using assms(2,3) by (rule round_trip_list(1) [OF assms(1)])
  have b: "list_all2 (within_tolerance eps eta) (data X) (data ?Y)"
    if "list_all (below_overflow eps eta) (data X)"
    unfolding d using assms(2,3) that by (rule round_trip_list(2) [OF assms(1)])
  have "shape0 ?Y = shape0 X" "shape1 ?Y = shape1 X"
    by (simp_all add: inverse_transform_def elementwise_def)
  with r a b show ?thesis by blast
qed

theorem round_trip_recovers_witness:
  "libm_ok libm_down unit_roundoff 0
   \<and> list_all isfinite (data two_ages) \<and> list_all is_positive (data two_ages)
   \<and> list_all (below_overflow unit_roundoff 0) (data two_ages)
   \<and> 1 \<le> shape0 two_ages \<and> 1 \<le> shape1 two_ages \<and> shape1 two_ages = df_shape1 age_frame
   \<and> (\<exists>Y. round_trip libm_down (fit LogTransformer_init age_frame) two_ages = Inr Y
        \<and> shape0 Y = shape0 two_ages \<and> shape1 Y = shape1 two_ages
        \<and> list_all2 (within_tolerance unit_roundoff 0) (data two_ages) (data Y))"
proof -
  have b: "list_all (below_overflow unit_roundoff 0) (data two_ages)"
    using below_overflow_sample [of 28] below_overflow_sample [of 3]
    by (simp add: two_ages_def)
  have h: "list_all isfinite (data two_ages)" "list_all is_positive (data two_ages)"
      "1 \<le> shape0 two_ages" "1 \<le> shape1 two_ages" "shape1 two_ages = df_shape1 age_frame"
    by (simp_all add: two_ages_def df_shape1_def age_frame_def)
  from round_trip_recovers [OF libm_down_ok h, of LogTransformer_init] b
  have "\<exists>Y. round_trip libm_down (fit LogTransformer_init age_frame) two_ages = Inr Y
        \<and> shape0 Y = shape0 two_ages \<and> shape1 Y = shape1 two_ages
        \<and> list_all2 (within_tolerance unit_roundoff 0) (data two_ages) (data Y)" by blast
  with libm_down_ok b h show ?thesis by (intro conjI)
qed

subsection \<open>The contract of transform\<close>

text \<open>
  A fitted adapter and an input with the fit-time column count, yet no logarithm: the
  entry is NaN and the validation raises.
\<close>

theorem transform_contract_counterexample:
  "shape1 \<lparr>shape0 = 1, shape1 = 1, data = [NaN]\<rparr> = df_shape1 age_frame
   \<and> transform libm_down (fit LogTransformer_init age_frame)
        \<lparr>shape0 = 1, shape1 = 1, data = [NaN]\<rparr> = Inl ValueError"
  by (simp add: transform_fit df_shape1_def age_frame_def)

text \<open>
  C3 (amended). \<open>transform\<close> before \<open>fit\<close> fails with the not-fitted error. On a fitted
  adapter and an input that passes the array validation (at least one row and one
  column, every entry finite), a column count other than the fit-time one fails the
  assertion on the shape, and the fit-time column count gives the elementwise natural
  logarithm of the input: \<open>np.log\<close> of every entry, which for a positive entry \<open>x\<close> is
  \<open>ln x\<close> to the relative accuracy of the math library.
\<close>

theorem transform_contract:
  "(feature_names self = None \<and> n_features_in self = None \<longrightarrow>
      transform M self X = Inl NotFittedError)
   \<and> (check_array X = Inr X \<and> shape1 X \<noteq> df_shape1 T \<longrightarrow>
        transform M (fit self T) X = Inl AssertionError)
   \<and> (check_array X = Inr X \<and> shape1 X = df_shape1 T \<longrightarrow>
        transform M (fit self T) X = Inr (elementwise (np_log M) X))
   \<and> (libm_ok M eps eta \<and> i < length (data X) \<and> data X ! i = Fin x \<and> 0 < x \<longrightarrow>
        (\<exists>y. data (elementwise (np_log M) X) ! i = Fin y \<and> \<bar>y - ln x\<bar> \<le> eps * \<bar>ln x\<bar>))"
proof (intro conjI impI)
  assume "feature_names self = None \<and> n_features_in self = None"
  then show "transform M self X = Inl NotFittedError"
    by (simp add: transform_def check_is_fitted_def)
next
  assume "check_array X = Inr X \<and> shape1 X \<noteq> df_shape1 T"
  then show "transform M (fit self T) X = Inl AssertionError"
    by (auto simp add: transform_fit check_array_def split: if_splits)
next
  assume "check_array X = Inr X \<and> shape1 X = df_shape1 T"
  then show "transform M (fit self T) X = Inr (elementwise (np_log M) X)"
    by (auto simp add: transform_fit check_array_def split: if_splits)
next
  assume h: "libm_ok M eps eta \<and> i < length (data X) \<and> data X ! i = Fin x \<and> 0 < x"
  then have "\<bar>c_log M x - ln x\<bar> \<le> eps * \<bar>ln x\<bar>" by (simp add: libm_ok_def)
  with h show "\<exists>y. data (elementwise (np_log M) X) ! i = Fin y \<and> \<bar>y - ln x\<bar> \<le> eps * \<bar>ln x\<bar>"
    by (simp add: elementwise_def)
qed

theorem transform_contract_witness:
  "transform libm_down LogTransformer_init two_ages = Inl NotFittedError
   \<and> transform libm_down (fit LogTransformer_init age_frame)
        \<lparr>shape0 = 1, shape1 = 2, data = [Fin 28, Fin 3]\<rparr> = Inl AssertionError
   \<and> transform libm_down (fit LogTransformer_init age_frame) two_ages
       = Inr \<lparr>shape0 = 2, shape1 = 1, data = [Fin (c_log libm_down 28), Fin (c_log libm_down 3)]\<rparr>
   \<and> (\<exists>y. data (elementwise (np_log libm_down) two_ages) ! 0 = Fin y
          \<and> \<bar>y - ln 28\<bar> \<le> unit_roundoff * \<bar>ln 28\<bar>)"
  using transform_contract [of LogTransformer_init libm_down two_ages age_frame unit_roundoff 0 0 28]
    transform_contract [of LogTransformer_init libm_down
      "\<lparr>shape0 = 1, shape1 = 2, data = [Fin 28, Fin 3]\<rparr>" age_frame]
    libm_down_ok
  by (simp add: LogTransformer_init_def check_array_def two_ages_def df_shape1_def
      age_frame_def elementwise_def)

subsection \<open>Zero and negative entries\<close>

lemma hstack_rows_contains:
  "length b = r * cb \<Longrightarrow> set b \<subseteq> set (hstack_rows r ca cb a b)"
proof (induction r arbitrary: a b)
  case 0
  then show ?case by simp
next
  case (Suc r)
  have "length (drop cb b) = r * cb" using Suc.prems by simp
  then have "set (drop cb b) \<subseteq> set (hstack_rows r ca cb (drop ca a) (drop cb b))"
    by (rule Suc.IH)
  moreover have "set b = set (take cb b) \<union> set (drop cb b)"
    using set_append [of "take cb b" "drop cb b"] by (simp only: append_take_drop_id)
  ultimately show ?case by auto
qed

lemma hstack_nonfinite:
  assumes "well_shaped B" and "\<not> list_all isfinite (data B)" and "hstack A B = Inr Z"
  shows "check_array Z = Inl ValueError"
proof -
  from assms(3) have z: "data Z = hstack_rows (shape0 A) (shape1 A) (shape1 B) (data A) (data B)"
      "shape0 A = shape0 B"
    by (auto simp add: hstack_def split: if_splits)
  have "set (data B) \<subseteq> set (data Z)"
    unfolding z(1) using assms(1) z(2) by (intro hstack_rows_contains) (simp add: well_shaped_def)
  with assms(2) have "\<not> list_all isfinite (data Z)" by (auto simp add: list_all_iff)
  then show ?thesis by (simp add: check_array_def)
qed

lemma hstack_error: "hstack A B = Inl e \<Longrightarrow> e = ValueError"
  by (auto simp add: hstack_def split: if_splits)

text \<open>
  A zero in the log-transformed column: the transformer returns \<open>-inf\<close> without raising,
  and the regressor then refuses the stacked features with an explicit ValueError.
\<close>

theorem transform_nonpositive_counterexample:
  "transform libm_down (fit LogTransformer_init age_frame)
      \<lparr>shape0 = 2, shape1 = 1, data = [Fin 28, Fin 0]\<rparr>
     = Inr \<lparr>shape0 = 2, shape1 = 1, data = [Fin (c_log libm_down 28), NInf]\<rparr>
   \<and> preprocessing_pipeline libm_down (fit LogTransformer_init age_frame) two_by_two
        \<lparr>shape0 = 2, shape1 = 1, data = [Fin 28, Fin 0]\<rparr>
       = Inr \<lparr>shape0 = 2, shape1 = 3,
              data = [Fin 1, Fin 2, Fin (c_log libm_down 28), Fin 3, Fin 4, NInf]\<rparr>
   \<and> svm_reg_pipeline_features libm_down (fit LogTransformer_init age_frame) two_by_two
        \<lparr>shape0 = 2, shape1 = 1, data = [Fin 28, Fin 0]\<rparr>
       = Inl ValueError"
  by (simp add: svm_reg_pipeline_features_def preprocessing_pipeline_def transform_fit
      df_shape1_def age_frame_def elementwise_def hstack_def two_by_two_def
      svm_reg_validate_def check_array_def numeral_2_eq_2)

text \<open>
  C6 (amended). For a fitted log-transform stage and every well-shaped input matrix it
  accepts (it passes the array validation and has the fit-time column count) that
  contains a zero or negative value, \<open>transform\<close> raises nothing and produces a
  non-finite value, \<open>-inf\<close> at every zero entry and NaN at every negative one. The value
  does not go silently into the downstream model: whatever the standardized columns it
  is stacked with, the regressor's validation of its features raises a ValueError.
\<close>

theorem transform_nonpositive:
  assumes "check_array X = Inr X" and "shape1 X = df_shape1 T"
    and "list_ex is_nonpositive (data X)" and "well_shaped X"
  shows "transform M (fit self T) X = Inr (elementwise (np_log M) X)
    \<and> list_ex (\<lambda>w. \<not> isfinite w) (data (elementwise (np_log M) X))
    \<and> (\<forall>i < length (data X). is_nonpositive (data X ! i) \<longrightarrow>
          data (elementwise (np_log M) X) ! i = (if data X ! i = Fin 0 then NInf else NaN))
    \<and> svm_reg_pipeline_features M (fit self T) standardized X = Inl ValueError"
proof (intro conjI allI impI)
  have ok: "list_all isfinite (data X)" "1 \<le> shape0 X" "1 \<le> shape1 X"
    using check_array_Inr [OF assms(1)] by simp_all
  show t: "transform M (fit self T) X = Inr (elementwise (np_log M) X)"
    using ok assms(2) by (simp add: transform_fit)
  from assms(3) obtain v where v: "v \<in> set (data X)" "is_nonpositive v"
    by (auto simp add: list_ex_iff)
  with ok(1) have "isfinite v" by (simp add: list_all_iff)
  with v(2) have "\<not> isfinite (np_log M v)" by (simp add: np_log_nonpositive)
  with v(1) show bad: "list_ex (\<lambda>w. \<not> isfinite w) (data (elementwise (np_log M) X))"
    by (auto simp add: list_ex_iff elementwise_def)
  have w: "well_shaped (elementwise (np_log M) X)"
    using assms(4) by (simp add: well_shaped_def elementwise_def)
  have nf: "\<not> list_all isfinite (data (elementwise (np_log M) X))"
    using bad by (auto simp add: list_ex_iff list_all_iff)
  show "svm_reg_pipeline_features M (fit self T) standardized X = Inl ValueError"
  proof (cases "hstack standardized (elementwise (np_log M) X)")
    case (Inl e)
    then show ?thesis
      using hstack_error [OF Inl]
      by (simp add: svm_reg_pipeline_features_def preprocessing_pipeline_def t)
  next
    case (Inr Z)
    then show ?thesis
      using hstack_nonfinite [OF w nf Inr]
      by (simp add: svm_reg_pipeline_features_def preprocessing_pipeline_def t
          svm_reg_validate_def)
  qed
next
  have ok: "list_all isfinite (data X)" using check_array_Inr [OF assms(1)] by simp
  fix i assume i: "i < length (data X)" "is_nonpositive (data X ! i)"
  with ok have "isfinite (data X ! i)" by (simp add: list_all_length)
  with i show "data (elementwise (np_log M) X) ! i = (if data X ! i = Fin 0 then NInf else NaN)"
    by (simp add: elementwise_def np_log_nonpositive)
qed

theorem transform_nonpositive_witness:
  "check_array \<lparr>shape0 = 3, shape1 = 1, data = [Fin 0, Fin (- 2), Fin 1]\<rparr>
     = Inr \<lparr>shape0 = 3, shape1 = 1, data = [Fin 0, Fin (- 2), Fin 1]\<rparr>
   \<and> well_shaped \<lparr>shape0 = 3, shape1 = 1, data = [Fin 0, Fin (- 2), Fin 1]\<rparr>
   \<and> transform libm_down (fit LogTransformer_init age_frame)
        \<lparr>shape0 = 3, shape1 = 1, data = [Fin 0, Fin (- 2), Fin 1]\<rparr>
       = Inr \<lparr>shape0 = 3, shape1 = 1, data = [NInf, NaN, Fin (c_log libm_down 1)]\<rparr>
   \<and> svm_reg_pipeline_features libm_down (fit LogTransformer_init age_frame)
        \<lparr>shape0 = 3, shape1 = 1, data = [Fin 5, Fin 6, Fin 7]\<rparr>
        \<lparr>shape0 = 3, shape1 = 1, data = [Fin 0, Fin (- 2), Fin 1]\<rparr> = Inl ValueError"
  using transform_nonpositive [of "\<lparr>shape0 = 3, shape1 = 1, data = [Fin 0, Fin (- 2), Fin 1]\<rparr>"
      age_frame libm_down LogTransformer_init "\<lparr>shape0 = 3, shape1 = 1, data = [Fin 5, Fin 6, Fin 7]\<rparr>"]
  by (simp add: check_array_def df_shape1_def age_frame_def elementwise_def well_shaped_def)

subsection \<open>The inverse transform\<close>

lemma exp_of_np_exp:
  assumes "libm_ok M eps eta"
  shows "exp_of eps eta v (np_exp M v)"
proof (cases v)
  case (Fin x)
  have b: "\<bar>c_exp M x - exp x\<bar> \<le> eps * exp x + eta" using assms by (simp add: libm_ok_def)
  show ?thesis
  proof (cases "max_float < c_exp M x")
    case True
    moreover have "c_exp M x \<le> exp x + (eps * exp x + eta)" using b by linarith
    ultimately show ?thesis using Fin by simp
  next
    case False
    then show ?thesis using Fin b by simp
  qed
qed simp_all

lemma exp_1_fits: "\<not> max_float < exp 1 * (1 - unit_roundoff)"
proof -
  have "exp 1 * (1 - unit_roundoff) \<le> 3 * (1 :: real)"
    using exp_le by (intro mult_mono) (simp_all add: unit_roundoff_def)
  also have "(3 * 1 :: real) \<le> 2 ^ 2" by simp
  also have "(2 :: real) ^ 2 \<le> 2 ^ 1023" by (rule power_increasing) simp_all
  also have "\<dots> \<le> max_float" by (rule max_float_ge)
  finally show ?thesis by simp
qed

lemma exp_2000_overflows: "max_float < exp 2000 * (1 - unit_roundoff)"
proof -
  have "(2 :: real) \<le> exp 1" using exp_ge_add_one_self [of "1 :: real"] by simp
  then have "(2 :: real) ^ 2000 \<le> exp 1 ^ 2000" by (rule power_mono) simp
  also have "\<dots> = exp (of_nat 2000 * 1)" by (simp only: exp_of_nat_mult)
  finally have e: "(2 :: real) ^ 2000 \<le> exp 2000" by simp
  have "max_float < 2 ^ 1024" by (rule max_float_less)
  also have "(2 :: real) ^ 1024 \<le> 2 ^ 1999" by (rule power_increasing) simp_all
  also have "\<dots> = 2 ^ 2000 * (1 / 2)" by simp
  also have "\<dots> \<le> exp 2000 * (1 - unit_roundoff)"
    using e by (intro mult_mono) (simp_all add: unit_roundoff_def)
  finally show ?thesis .
qed

text \<open>
  C7. \<open>inverse_transform(X)\<close> is the elementwise exponential of \<open>X\<close>, for every matrix \<open>X\<close>
  and every adapter: the result has the shape of \<open>X\<close>; a finite entry \<open>x\<close> gives a finite
  value within the math library's accuracy of \<open>exp x\<close>, or \<open>+inf\<close> when the exponential
  exceeds the largest finite float64; \<open>+inf\<close>, \<open>-inf\<close> and NaN give \<open>+inf\<close>, zero and NaN.
  No fitted state is read, so the result is the same on the unfitted adapter and on any
  fitted one, whatever the column count of \<open>X\<close>.
\<close>

theorem inverse_transform_unchecked:
  assumes "libm_ok M eps eta"
  shows "shape0 (inverse_transform M self X) = shape0 X
    \<and> shape1 (inverse_transform M self X) = shape1 X
    \<and> list_all2 (exp_of eps eta) (data X) (data (inverse_transform M self X))
    \<and> inverse_transform M self X = inverse_transform M LogTransformer_init X
    \<and> inverse_transform M (fit self T) X = inverse_transform M LogTransformer_init X"
proof -
  have "list_all2 (exp_of eps eta) xs (map (np_exp M) xs)" for xs
    by (induction xs) (simp_all add: exp_of_np_exp [OF assms])
  then show ?thesis by (simp add: inverse_transform_def elementwise_def)
qed

theorem inverse_transform_unchecked_witness:
  "libm_ok libm_down unit_roundoff 0
   \<and> inverse_transform libm_down LogTransformer_init
        \<lparr>shape0 = 1, shape1 = 5, data = [Fin 1, Fin 2000, PInf, NInf, NaN]\<rparr>
       = \<lparr>shape0 = 1, shape1 = 5,
          data = [Fin (exp 1 * (1 - unit_roundoff)), PInf, PInf, Fin 0, NaN]\<rparr>
   \<and> list_all2 (exp_of unit_roundoff 0) [Fin 1, Fin 2000, PInf, NInf, NaN]
        [Fin (exp 1 * (1 - unit_roundoff)), PInf, PInf, Fin 0, NaN]
   \<and> transform libm_down LogTransformer_init
        \<lparr>shape0 = 1, shape1 = 5, data = [Fin 1, Fin 2000, PInf, NInf, NaN]\<rparr>
       = Inl NotFittedError
   \<and> inverse_transform libm_down (fit LogTransformer_init age_frame)
        \<lparr>shape0 = 1, shape1 = 5, data = [Fin 1, Fin 2000, PInf, NInf, NaN]\<rparr>
       = \<lparr>shape0 = 1, shape1 = 5,
          data = [Fin (exp 1 * (1 - unit_roundoff)), PInf, PInf, Fin 0, NaN]\<rparr>"
proof -
  let ?X = "\<lparr>shape0 = 1, shape1 = 5, data = [Fin 1, Fin 2000, PInf, NInf, NaN]\<rparr>"
  let ?Y = "\<lparr>shape0 = 1, shape1 = 5,
          data = [Fin (exp 1 * (1 - unit_roundoff)), PInf, PInf, Fin 0, NaN]\<rparr>"
  note t = inverse_transform_unchecked [OF libm_down_ok, of LogTransformer_init ?X age_frame]
  have v: "inverse_transform libm_down LogTransformer_init ?X = ?Y"
    using exp_1_fits exp_2000_overflows
    by (simp add: inverse_transform_def elementwise_def libm_down_def)
  have "list_all2 (exp_of unit_roundoff 0) (data ?X) (data ?Y)"
    using t v by simp
  then have l: "list_all2 (exp_of unit_roundoff 0) [Fin 1, Fin 2000, PInf, NInf, NaN]
        [Fin (exp 1 * (1 - unit_roundoff)), PInf, PInf, Fin 0, NaN]" by simp
  have f: "inverse_transform libm_down (fit LogTransformer_init age_frame) ?X = ?Y"
    using t v by simp
  have n: "transform libm_down LogTransformer_init ?X = Inl NotFittedError"
    by (simp add: transform_def check_is_fitted_def LogTransformer_init_def)
  show ?thesis using libm_down_ok v l n f by (intro conjI)
qed

subsection \<open>Non-finite entries\<close>

text \<open>
  C9. For every fitted LogTransformer, \<open>transform\<close> raises the validation error
  (ValueError, from \<open>check_array\<close>) on every input with a NaN or infinite entry; the
  logarithm is not computed.
\<close>

theorem transform_rejects_nonfinite:
  assumes "check_is_fitted self = Inr ()" and "list_ex (\<lambda>v. \<not> isfinite v) (data X)"
  shows "transform M self X = Inl ValueError"
  using assms by (simp add: transform_def check_array_def list_ex_iff list_all_iff)

theorem transform_rejects_nonfinite_witness:
  "check_is_fitted (fit LogTransformer_init age_frame) = Inr ()
   \<and> list_ex (\<lambda>v. \<not> isfinite v) (data \<lparr>shape0 = 3, shape1 = 1, data = [Fin 28, NaN, PInf]\<rparr>)
   \<and> transform libm_down (fit LogTransformer_init age_frame)
        \<lparr>shape0 = 3, shape1 = 1, data = [Fin 28, NaN, PInf]\<rparr> = Inl ValueError"
  using transform_rejects_nonfinite [of "fit LogTransformer_init age_frame"
      "\<lparr>shape0 = 3, shape1 = 1, data = [Fin 28, NaN, PInf]\<rparr>" libm_down]
  by (simp add: check_is_fitted_def fit_def)

subsection \<open>What fit records\<close>

text \<open>
  C10. The fitted state depends only on the column list of the table passed to \<open>fit\<close>
  (its names, and through them its count), never on the values: fitting one adapter
  on either of two tables with the same column list gives the same adapter, hence the
  same \<open>transform\<close>, \<open>get_feature_names_out\<close> and \<open>inverse_transform\<close> on every input.
\<close>

theorem fit_depends_on_columns_only:
  assumes "columns X1 = columns X2"
  shows "fit self X1 = fit self X2
    \<and> transform M (fit self X1) Z = transform M (fit self X2) Z
    \<and> get_feature_names_out (fit self X1) names = get_feature_names_out (fit self X2) names
    \<and> inverse_transform M (fit self X1) Z = inverse_transform M (fit self X2) Z"
  using assms by (simp add: fit_def df_shape1_def inverse_transform_def)

theorem fit_depends_on_columns_only_witness:
  "columns age_frame = columns age_frame_later
   \<and> frame_values age_frame \<noteq> frame_values age_frame_later
   \<and> fit LogTransformer_init age_frame = fit LogTransformer_init age_frame_later
   \<and> transform libm_down (fit LogTransformer_init age_frame) two_ages
       = transform libm_down (fit LogTransformer_init age_frame_later) two_ages
   \<and> get_feature_names_out (fit LogTransformer_init age_frame) ()
       = get_feature_names_out (fit LogTransformer_init age_frame_later) ()
   \<and> inverse_transform libm_down (fit LogTransformer_init age_frame) two_ages
       = inverse_transform libm_down (fit LogTransformer_init age_frame_later) two_ages"
  using fit_depends_on_columns_only [of age_frame age_frame_later LogTransformer_init
      libm_down two_ages "()"]
  by (simp add: age_frame_def age_frame_later_def)

section \<open>Properties of the evaluation\<close>

lemma sem_01: "stats_sem [0, 1] = Fin (1 / 2)"
proof -
  have "sqrt (1 / 2) / sqrt 2 = sqrt ((1 / 2) / 2)" by (simp only: real_sqrt_divide)
  also have "\<dots> = sqrt ((1 / 2)\<^sup>2)" by (simp add: power2_eq_square)
  also have "\<dots> = 1 / 2" by (simp only: real_sqrt_abs)
  finally show ?thesis by (simp add: stats_sem_def power2_eq_square)
qed

lemma tan_big: "1 < tan (19 * pi / 40)"
proof -
  have "tan (pi / 4) < tan (19 * pi / 40)"
    by (rule tan_monotone) (use pi_gt_zero in simp_all)
  then show ?thesis by (simp add: tan_45)
qed

lemma q1_df1: "t_quantile_df1 (1 / 40) df = - tan (19 * pi / 40)"
proof -
  have "pi * (1 / 40 - 1 / 2) = - (19 * pi / 40)" by simp
  then show ?thesis unfolding t_quantile_df1_def by (simp only: tan_minus)
qed

text \<open>
  Two test rows with squared errors 0 and 1: the mean is 1/2, the standard error 1/2, the
  0.025 quantile at one degree of freedom is below -1, so the interval's lower bound is
  negative and its square root is NaN. A test set of one row has no standard error, and
  one predicted without error has the standard error zero: both bounds are NaN.
\<close>

theorem evaluator_bounds_counterexample:
  "map_sum id fst (confidence_interval t_quantile_df1 [0, 1] [0, 0]) = Inr NaN
   \<and> \<not> interval_ordered_nonneg (confidence_interval t_quantile_df1 [0, 1] [0, 0])
   \<and> confidence_interval t_quantile_df1 [1] [0] = Inr (NaN, NaN)
   \<and> confidence_interval t_quantile_df1 [1, 2] [1, 2] = Inr (NaN, NaN)"
proof -
  have a: "map_sum id fst (confidence_interval t_quantile_df1 [0, 1] [0, 0]) = Inr NaN
   \<and> \<not> interval_ordered_nonneg (confidence_interval t_quantile_df1 [0, 1] [0, 0])"
    using tan_big
    by (simp add: confidence_interval_def squared_errors_def t_interval_def confidence_def
        series_mean_def sem_01 t_ppf_def q1_df1 interval_ordered_nonneg_def)
  have b: "confidence_interval t_quantile_df1 [1] [0] = Inr (NaN, NaN)"
    by (simp add: confidence_interval_def squared_errors_def t_interval_def confidence_def
        series_mean_def stats_sem_def t_ppf_def)
  have c: "confidence_interval t_quantile_df1 [1, 2] [1, 2] = Inr (NaN, NaN)"
    by (simp add: confidence_interval_def squared_errors_def t_interval_def confidence_def
        series_mean_def stats_sem_def t_ppf_def)
  show ?thesis using a b c by (intro conjI) simp_all
qed

lemma sum_squares_nonneg: "0 \<le> sum_list (map2 (\<lambda>p t. (p - t)\<^sup>2) xs (ys :: real list))"
  by (rule sum_list_nonneg) (auto simp add: in_set_zip)

lemma squares_commute:
  "map2 (\<lambda>t p. (t - p)\<^sup>2) ys ps = map2 (\<lambda>p t. (p - t)\<^sup>2) ps (ys :: real list)"
proof (induction ys arbitrary: ps)
  case Nil
  show ?case by simp
next
  case (Cons y ys)
  then show ?case by (cases ps) (simp_all add: power2_commute)
qed

lemma t_ppf_finite:
  "0 < df \<Longrightarrow> 0 < s \<Longrightarrow> 0 < q \<Longrightarrow> q < 1 \<Longrightarrow>
     t_ppf quantile q df (Fin m) (Fin s) = Fin (m + quantile q df * s)"
  by (simp add: t_ppf_def add.commute)

text \<open>
  C2 (amended). For every non-empty test set with one prediction per row, the RMSE is
  \<open>sqrt(mean((prediction - actual)^2))\<close> and is non-negative. With \<open>m\<close> the mean squared
  error, \<open>s\<close> its standard error and \<open>n\<close> the number of rows, when \<open>n\<close> is at least two and
  \<open>s\<close> is positive the reported interval is the square root of the two-sided 0.95
  t-interval with \<open>n - 1\<close> degrees of freedom located at \<open>m\<close> and scaled by \<open>s\<close>, that is
  of \<open>lo = m + t(0.025) * s\<close> and \<open>hi = m + t(0.975) * s\<close>. Its upper bound is non-negative
  whenever the 0.975 quantile is. Its lower bound is NaN when \<open>lo\<close> is negative, and is
  non-negative and at most the upper bound when \<open>lo\<close> is not: the bounds are ordered and
  non-negative exactly when \<open>lo\<close> is non-negative.
\<close>

theorem evaluator_bounds:
  assumes "y_test \<noteq> []" and "length y_pred = length y_test"
    and "se = map2 (\<lambda>p t. (p - t)\<^sup>2) y_pred y_test"
    and "n = length y_test"
    and "m = sum_list se / real n"
    and "s = sqrt (sum_list (map (\<lambda>x. (x - m)\<^sup>2) se) / real (n - 1)) / sqrt (real n)"
    and "t_lo = quantile ((1 - confidence) / 2) (int n - 1)"
    and "t_hi = quantile ((1 + confidence) / 2) (int n - 1)"
    and "lo = m + t_lo * s" and "hi = m + t_hi * s"
  shows "rmse y_test y_pred = Inr (sqrt m) \<and> 0 \<le> sqrt m
    \<and> (2 \<le> n \<and> 0 < s \<longrightarrow>
          confidence_interval quantile y_pred y_test = Inr (np_sqrt (Fin lo), np_sqrt (Fin hi)))
    \<and> (2 \<le> n \<and> 0 < s \<and> 0 \<le> t_hi \<longrightarrow> np_sqrt (Fin hi) = Fin (sqrt hi) \<and> 0 \<le> sqrt hi)
    \<and> (lo < 0 \<longrightarrow> np_sqrt (Fin lo) = NaN)
    \<and> (2 \<le> n \<and> 0 < s \<and> t_lo \<le> t_hi \<and> 0 \<le> lo \<longrightarrow>
          np_sqrt (Fin lo) = Fin (sqrt lo) \<and> 0 \<le> sqrt lo \<and> sqrt lo \<le> sqrt hi)
    \<and> (2 \<le> n \<and> 0 < s \<and> t_lo \<le> t_hi \<and> 0 \<le> t_hi \<longrightarrow>
          interval_ordered_nonneg (confidence_interval quantile y_pred y_test) = (0 \<le> lo))"
proof -
  have len: "length se = n" using assms(2,3,4) by simp
  have m0: "0 \<le> m"
    using sum_squares_nonneg [of y_pred y_test] by (simp add: assms(3,5))
  have r: "rmse y_test y_pred = Inr (sqrt m)"
    using assms(1,2) by (simp add: rmse_def mean_squared_error_def squares_commute assms(3,4,5))
  have ci: "confidence_interval quantile y_pred y_test = Inr (np_sqrt (Fin lo), np_sqrt (Fin hi))"
    if "2 \<le> n" and "0 < s"
  proof -
    have sq: "squared_errors y_pred y_test = Inr se" using assms(2,3) by (simp add: squared_errors_def)
    have ne: "se \<noteq> []" using len that(1) by auto
    have mean: "series_mean se = Fin m" using ne by (simp add: series_mean_def len assms(5))
    have sem: "stats_sem se = Fin s" using that(1) by (simp add: stats_sem_def len assms(5,6) Let_def)
    have df: "0 < int n - 1" using that(1) by simp
    have l: "t_ppf quantile ((1 - confidence) / 2) (int n - 1) (Fin m) (Fin s) = Fin lo"
      unfolding assms(7,9) using df that(2) by (intro t_ppf_finite) (simp_all add: confidence_def)
    have h: "t_ppf quantile ((1 + confidence) / 2) (int n - 1) (Fin m) (Fin s) = Fin hi"
      unfolding assms(8,10) using df that(2) by (intro t_ppf_finite) (simp_all add: confidence_def)
    show ?thesis
      using l h by (simp add: confidence_interval_def sq t_interval_def mean sem len confidence_def)
  qed
  have hi0: "0 \<le> hi" if "0 < s" and "0 \<le> t_hi"
    using that m0 by (simp add: assms(10))
  have lohi: "lo \<le> hi" if "0 < s" and "t_lo \<le> t_hi"
    using that by (simp add: assms(9,10) mult_right_mono)
  have ord: "interval_ordered_nonneg (confidence_interval quantile y_pred y_test) = (0 \<le> lo)"
    if "2 \<le> n" and "0 < s" and "t_lo \<le> t_hi" and "0 \<le> t_hi"
    using lohi [OF that(2,3)] hi0 [OF that(2,4)]
    by (simp add: ci [OF that(1,2)] interval_ordered_nonneg_def)
  show ?thesis
    using r m0 ci hi0 lohi ord by simp
qed

lemma q_df2: "t_quantile_df2 (1 / 40) df = - (19 / 20) / sqrt (39 / 800)"
  "t_quantile_df2 (39 / 40) df = (19 / 20) / sqrt (39 / 800)"
  by (simp_all add: t_quantile_df2_def)

lemma sqrt_39_800: "1 / 5 \<le> sqrt (39 / 800)"
  by (rule real_le_rsqrt) (simp add: power2_eq_square)

lemma witness_lower: "0 \<le> 107 + - (19 / 20) / sqrt (39 / 800) * (7 :: real)"
proof -
  have pos: "0 < sqrt (39 / 800 :: real)" by simp
  have "19 / 20 * 7 \<le> 107 * (1 / 5 :: real)" by simp
  also have "\<dots> \<le> 107 * sqrt (39 / 800)" using sqrt_39_800 by simp
  finally have "19 / 20 / sqrt (39 / 800) * 7 \<le> (107 :: real)"
    using pos by (simp add: field_simps)
  then show ?thesis by simp
qed

theorem evaluator_bounds_witness:
  "rmse [0, 0, 0] [10, 11, 10] = Inr (sqrt 107)
   \<and> confidence_interval t_quantile_df2 [10, 11, 10] [0, 0, 0]
       = Inr (Fin (sqrt (107 + - (19 / 20) / sqrt (39 / 800) * 7)),
              Fin (sqrt (107 + 19 / 20 / sqrt (39 / 800) * 7)))
   \<and> interval_ordered_nonneg (confidence_interval t_quantile_df2 [10, 11, 10] [0, 0, 0])"
proof -
  have pos: "0 < sqrt (39 / 800 :: real)" by simp
  have s: "(7 :: real) = sqrt (sum_list (map (\<lambda>x. (x - 107)\<^sup>2) [100, 121, 100]) / real (3 - 1)) / sqrt (real 3)"
  proof -
    have "sqrt 147 / sqrt 3 = sqrt (147 / 3)" by (simp only: real_sqrt_divide)
    also have "\<dots> = sqrt (7\<^sup>2)" by (simp add: power2_eq_square)
    also have "\<dots> = 7" by (simp only: real_sqrt_abs)
    finally show ?thesis by (simp add: power2_eq_square)
  qed
  have tl: "- (19 / 20) / sqrt (39 / 800) = t_quantile_df2 ((1 - confidence) / 2) (int 3 - 1)"
    by (simp add: confidence_def q_df2)
  have th: "19 / 20 / sqrt (39 / 800) = t_quantile_df2 ((1 + confidence) / 2) (int 3 - 1)"
    by (simp add: confidence_def q_df2)
  have ord: "- (19 / 20) / sqrt (39 / 800) \<le> 19 / 20 / sqrt (39 / 800 :: real)"
    using pos by (simp add: field_simps)
  have up: "0 \<le> 19 / 20 / sqrt (39 / 800 :: real)" by simp
  have p: "[0, 0, 0] \<noteq> ([] :: real list)" "length [10, 11, 10 :: real] = length [0, 0, 0 :: real]"
      "[100, 121, 100] = map2 (\<lambda>p t. (p - t)\<^sup>2) [10, 11, 10] [0, 0, 0 :: real]"
      "3 = length [0, 0, 0 :: real]" "(107 :: real) = sum_list [100, 121, 100] / real 3"
    by simp_all
  note t = evaluator_bounds [of "[0, 0, 0]" "[10, 11, 10]" "[100, 121, 100]" 3 107 7
      "- (19 / 20) / sqrt (39 / 800)" t_quantile_df2 "19 / 20 / sqrt (39 / 800)"
      "107 + - (19 / 20) / sqrt (39 / 800) * 7" "107 + 19 / 20 / sqrt (39 / 800) * 7",
      OF p s tl th refl refl]
  have n: "2 \<le> (3 :: nat)" "0 < (7 :: real)" by simp_all
  from t have r: "rmse [0, 0, 0] [10, 11, 10] = Inr (sqrt 107)" by blast
  from t n have c: "confidence_interval t_quantile_df2 [10, 11, 10] [0, 0, 0]
       = Inr (np_sqrt (Fin (107 + - (19 / 20) / sqrt (39 / 800) * 7)),
              np_sqrt (Fin (107 + 19 / 20 / sqrt (39 / 800) * 7)))" by blast
  from t n ord up witness_lower
  have o: "interval_ordered_nonneg (confidence_interval t_quantile_df2 [10, 11, 10] [0, 0, 0])"
    by blast
  have hi: "0 \<le> 107 + 19 / 20 / sqrt (39 / 800) * (7 :: real)" using up by simp
  have c': "confidence_interval t_quantile_df2 [10, 11, 10] [0, 0, 0]
       = Inr (Fin (sqrt (107 + - (19 / 20) / sqrt (39 / 800) * 7)),
              Fin (sqrt (107 + 19 / 20 / sqrt (39 / 800) * 7)))"
    unfolding c using witness_lower hi by simp
  show ?thesis using r c' o by (intro conjI)
qed

section \<open>Properties of the split\<close>

lemma mset_rotate_eq: "mset (rotate n xs) = mset xs"
proof -
  have "mset (drop (n mod length xs) xs @ take (n mod length xs) xs)
          = mset (take (n mod length xs) xs @ drop (n mod length xs) xs)"
    by (simp only: mset_append add.commute)
  then show ?thesis by (simp only: rotate_drop_take append_take_drop_id)
qed

lemma counter_random_ok: "numpy_random_ok counter_random"
  unfolding numpy_random_ok_def counter_random_def
  by (simp add: mset_rotate_eq del: mset_upt)

lemma validate_shuffle_split_ok:
  assumes "2 \<le> n"
  shows "validate_shuffle_split n (1 / 5)
           = Inr (n - nat \<lceil>real n / 5\<rceil>, nat \<lceil>real n / 5\<rceil>)"
    and "nat \<lceil>real n / 5\<rceil> < n"
proof -
  have "real n / 5 \<le> real_of_int (int n - 1)" using assms by simp
  then have "\<lceil>real n / 5\<rceil> \<le> int n - 1" by (simp only: ceiling_le_iff)
  then show lt: "nat \<lceil>real n / 5\<rceil> < n" using assms by linarith
  then show "validate_shuffle_split n (1 / 5)
           = Inr (n - nat \<lceil>real n / 5\<rceil>, nat \<lceil>real n / 5\<rceil>)"
    by (simp add: validate_shuffle_split_def Let_def)
qed

lemma permutation_facts:
  assumes "mset perm = mset [0..<n]"
  shows "distinct perm" and "set perm = {0..<n}" and "length perm = n"
proof -
  show "distinct perm" using mset_eq_imp_distinct_iff [OF assms] by simp
  show "set perm = {0..<n}" using mset_eq_setD [OF assms] by simp
  show "length perm = n" using mset_eq_length [OF assms] by simp
qed

lemma mset_rows_of_permutation:
  assumes "mset perm = mset [0..<length X]"
  shows "mset (map (\<lambda>i. X ! i) perm) = mset X"
proof -
  have "mset (map (\<lambda>i. X ! i) perm) = image_mset (\<lambda>i. X ! i) (mset perm)" by simp
  also have "\<dots> = image_mset (\<lambda>i. X ! i) (mset [0..<length X])" by (simp only: assms)
  also have "\<dots> = mset (map (\<lambda>i. X ! i) [0..<length X])" by (simp only: mset_map)
  also have "\<dots> = mset X" by (simp only: map_nth)
  finally show ?thesis .
qed

lemma validate_five: "validate_shuffle_split 5 (1 / 5) = Inr (4, 1)"
  by (simp add: validate_shuffle_split_def)

lemma permutation_five: "permutation counter_random 42 5 = ([2, 3, 4, 0, 1], 43)"
  by (simp add: counter_random_def rotate_drop_take)

lemma split_five:
  "fst (split_train_test counter_random five_rows 0)
     = Inr (([[266, 47], [380, 36], [540, 80], [332, 40]], [[198, 45]]), ([3, 4, 0, 1], [2]))"
proof -
  have len: "length five_rows = 5" by (simp add: five_rows_def)
  have seed: "check_random_state counter_random (Some 42) 0 = 42"
    by (simp add: check_random_state_def counter_random_def)
  have "fst (split_train_test counter_random five_rows 0)
      = Inr ((safe_indexing five_rows [3, 4, 0, 1], safe_indexing five_rows [2]),
             ([3, 4, 0, 1], [2]))"
    by (simp add: split_train_test_def train_test_split_def len validate_five seed
        shuffle_split_indices_def permutation_five)
  then show ?thesis by (simp add: safe_indexing_def five_rows_def)
qed

text \<open>
  A table of one row: the test count is \<open>ceil(0.2) = 1\<close>, the train set would be empty,
  and the split raises ValueError.
\<close>



lemma ceiling_fifth: "\<lceil>1 / 5 :: real\<rceil> = 1"
  by (simp add: ceiling_eq_iff)

theorem split_counterexample:
  "fst (split_train_test counter_random [[540, 80 :: real]] 0) = Inl ValueError"
  by (simp add: split_train_test_def train_test_split_def validate_shuffle_split_def
      ceiling_fifth)

text \<open>
  C4 (amended). For every record table with at least two rows, the splitter with test
  fraction 0.2 and seed 42 returns a train table and a test table made of the rows at
  two disjoint lists of positions, without repetition, that together are all positions
  of the table, so that the rows of the two tables together are the rows of the
  original; the test table has \<open>ceil(0.2 * n)\<close> rows. The result does not depend on the
  state of the global generator, which the call leaves as it was, so repeated calls
  give the same partition.
\<close>

theorem split_partitions:
  assumes "numpy_random_ok R" and "2 \<le> length X"
  shows "(\<exists>train test ind_train ind_test.
            fst (split_train_test R X global) = Inr ((train, test), (ind_train, ind_test))
            \<and> train = map (\<lambda>i. X ! i) ind_train \<and> test = map (\<lambda>i. X ! i) ind_test
            \<and> distinct (ind_train @ ind_test)
            \<and> set ind_train \<inter> set ind_test = {}
            \<and> set ind_train \<union> set ind_test = {0..<length X}
            \<and> mset train + mset test = mset X
            \<and> length test = nat \<lceil>real (length X) / 5\<rceil>
            \<and> length train = length X - length test)
    \<and> fst (split_train_test R X global) = fst (split_train_test R X global')
    \<and> snd (split_train_test R X global) = global"
proof -
  let ?n = "length X"
  let ?k = "nat \<lceil>real ?n / 5\<rceil>"
  let ?rng = "RandomState R 42"
  obtain perm rng' where p: "permutation R ?rng ?n = (perm, rng')"
    by (cases "permutation R ?rng ?n")
  from assms(1) have "mset (fst (permutation R ?rng ?n)) = mset [0..<?n]"
    by (simp add: numpy_random_ok_def)
  with p have m: "mset perm = mset [0..<?n]" by simp
  note pf = permutation_facts [OF m]
  note v = validate_shuffle_split_ok [OF assms(2)]
  let ?test = "take ?k perm"
  let ?train = "drop ?k perm"
  have tr: "take (?n - ?k) (drop ?k perm) = ?train" using pf(3) by simp
  have inrange: "list_all (\<lambda>i. i < ?n) (?train @ ?test)"
  proof -
    have "set (?train @ ?test) \<subseteq> set perm"
      using set_take_subset [of ?k perm] set_drop_subset [of ?k perm] by auto
    then show ?thesis using pf(2) by (auto simp add: list_all_iff)
  qed
  have split: "split_train_test R X g
      = (Inr ((map (\<lambda>i. X ! i) ?train, map (\<lambda>i. X ! i) ?test), (?train, ?test)), g)" for g
    using inrange
    by (simp add: split_train_test_def train_test_split_def v(1) check_random_state_def
        shuffle_split_indices_def p tr global_after_def safe_indexing_def del: list_all_append)
  have d: "distinct (?train @ ?test)"
  proof -
    have "distinct (?test @ ?train)" using pf(1) by (simp only: append_take_drop_id)
    then show ?thesis unfolding distinct_append by blast
  qed
  have disj: "set ?train \<inter> set ?test = {}" using d unfolding distinct_append by blast
  have cover: "set ?train \<union> set ?test = {0..<?n}"
  proof -
    have "set ?train \<union> set ?test = set (?test @ ?train)"
      unfolding set_append by blast
    also have "\<dots> = set perm" by (simp only: append_take_drop_id)
    finally show ?thesis using pf(2) by simp
  qed
  have rows: "mset (map (\<lambda>i. X ! i) ?train) + mset (map (\<lambda>i. X ! i) ?test) = mset X"
  proof -
    have "mset (map (\<lambda>i. X ! i) ?train) + mset (map (\<lambda>i. X ! i) ?test)
            = mset (map (\<lambda>i. X ! i) (?test @ ?train))"
      by (simp only: map_append mset_append add.commute)
    also have "\<dots> = mset (map (\<lambda>i. X ! i) perm)" by (simp only: append_take_drop_id)
    also have "\<dots> = mset X" by (rule mset_rows_of_permutation [OF m])
    finally show ?thesis .
  qed
  have lens: "length (map (\<lambda>i. X ! i) ?test) = ?k"
      "length (map (\<lambda>i. X ! i) ?train) = ?n - length (map (\<lambda>i. X ! i) ?test)"
    using pf(3) v(2) by simp_all
  show ?thesis
    unfolding split using d disj cover rows lens by simp
qed

theorem split_partitions_witness:
  "numpy_random_ok counter_random \<and> 2 \<le> length five_rows
   \<and> fst (split_train_test counter_random five_rows 0)
       = Inr (([[266, 47], [380, 36], [540, 80], [332, 40]], [[198, 45]]), ([3, 4, 0, 1], [2]))
   \<and> fst (split_train_test counter_random five_rows 0)
       = fst (split_train_test counter_random five_rows 7)
   \<and> snd (split_train_test counter_random five_rows 0) = 0"
proof -
  have len: "2 \<le> length five_rows" by (simp add: five_rows_def)
  note t = split_partitions [OF counter_random_ok len, of 0 7]
  from t have same: "fst (split_train_test counter_random five_rows 0)
       = fst (split_train_test counter_random five_rows 7)" by blast
  from t have kept: "snd (split_train_test counter_random five_rows 0) = 0" by blast
  show ?thesis using counter_random_ok len split_five same kept by (intro conjI)
qed

section \<open>Properties of the randomized search\<close>

lemma sorted_items: "sort_key fst param_distributions =
     [(''svm_reg__C'', Uniform c_lower_bound (c_upper_bound - c_lower_bound)),
      (''svm_reg__gamma'', Choice [''auto'', ''scale'']),
      (''svm_reg__kernel'', Choice [''rbf'', ''linear''])]"
  by (simp add: param_distributions_def)

lemma rvs_uniform_C:
  assumes "numpy_random_ok R"
  shows "\<exists>c g'. rvs R (Uniform c_lower_bound (c_upper_bound - c_lower_bound)) g = (Inr (Num c), g')
           \<and> 1 / 100 \<le> c \<and> c < 15"
proof -
  obtain u g' where d: "random_sample R g = (u, g')" by (cases "random_sample R g")
  from assms have "0 \<le> fst (random_sample R g) \<and> fst (random_sample R g) < 1"
    by (simp add: numpy_random_ok_def)
  with d have u: "0 \<le> u" "u < 1" by simp_all
  have "1 / 100 + (15 - 1 / 100) * u < 1 / 100 + (15 - 1 / 100) * 1"
    using u(2) by (intro add_strict_left_mono mult_strict_left_mono) simp_all
  then have "1 / 100 + (15 - 1 / 100) * u < 15" by simp
  moreover have "0 \<le> (15 - 1 / 100) * u" using u(1) by simp
  ultimately show ?thesis
    using d by (simp add: c_lower_bound_def c_upper_bound_def)
qed

lemma rvs_choice2:
  assumes "numpy_random_ok R"
  shows "\<exists>v g'. rvs R (Choice [a, b]) g = (Inr (Str v), g') \<and> (v = a \<or> v = b)"
proof -
  obtain i g' where d: "randint R g (Suc (Suc 0)) = (i, g')"
    by (cases "randint R g (Suc (Suc 0))")
  from assms have "fst (randint R g (Suc (Suc 0))) < Suc (Suc 0)"
    by (simp add: numpy_random_ok_def)
  with d have "i = 0 \<or> i = 1" by auto
  with d show ?thesis by auto
qed

lemma sample_items_in_space:
  assumes "numpy_random_ok R"
  shows "\<exists>params g'. sample_items R (sort_key fst param_distributions) g = (Inr params, g')
           \<and> candidate_in_space params"
proof -
  obtain c g1 where c: "rvs R (Uniform c_lower_bound (c_upper_bound - c_lower_bound)) g = (Inr (Num c), g1)"
      "1 / 100 \<le> c" "c < 15"
    using rvs_uniform_C [OF assms, of g] by blast
  obtain gm g2 where gm: "rvs R (Choice [''auto'', ''scale'']) g1 = (Inr (Str gm), g2)"
      "gm = ''auto'' \<or> gm = ''scale''"
    using rvs_choice2 [OF assms, of "''auto''" "''scale''" g1] by blast
  obtain k g3 where k: "rvs R (Choice [''rbf'', ''linear'']) g2 = (Inr (Str k), g3)"
      "k = ''rbf'' \<or> k = ''linear''"
    using rvs_choice2 [OF assms, of "''rbf''" "''linear''" g2] by blast
  have "sample_items R (sort_key fst param_distributions) g
          = (Inr [(''svm_reg__C'', Num c), (''svm_reg__gamma'', Str gm), (''svm_reg__kernel'', Str k)], g3)"
    unfolding sorted_items using c(1) gm(1) k(1) by (simp del: rvs.simps)
  moreover have "candidate_in_space
      [(''svm_reg__C'', Num c), (''svm_reg__gamma'', Str gm), (''svm_reg__kernel'', Str k)]"
    using c(2,3) gm(2) k(2) by simp
  ultimately show ?thesis by blast
qed

lemma ParameterSampler_total:
  assumes "numpy_random_ok R"
  shows "\<exists>candidates g'. ParameterSampler R param_distributions n g = (Inr candidates, g')
           \<and> length candidates = n \<and> list_all candidate_in_space candidates"
proof (induction n arbitrary: g)
  case 0
  show ?case by simp
next
  case (Suc n)
  obtain params g1 where p:
      "sample_items R (sort_key fst param_distributions) g = (Inr params, g1)"
      "candidate_in_space params"
    using sample_items_in_space [OF assms, of g] by blast
  obtain rest g2 where r: "ParameterSampler R param_distributions n g1 = (Inr rest, g2)"
      "length rest = n" "list_all candidate_in_space rest"
    using Suc.IH [of g1] by blast
  show ?case using p r by simp
qed

lemma candidate_in_spaceD:
  assumes "candidate_in_space params"
  shows "\<exists>c gm k. params = [(''svm_reg__C'', Num c), (''svm_reg__gamma'', Str gm),
                                (''svm_reg__kernel'', Str k)]
           \<and> c_lower_bound \<le> c \<and> c < c_upper_bound
           \<and> gm \<in> {''auto'', ''scale''} \<and> k \<in> {''rbf'', ''linear''}"
  using assms
  by (cases params rule: candidate_in_space.cases)
     (simp_all add: c_lower_bound_def c_upper_bound_def)

lemma two_Suc: "Suc (Suc 0) = 2"
  by simp

lemma sample_two:
  "ParameterSampler counter_random param_distributions (Suc (Suc 0)) 42 =
     (Inr [[(''svm_reg__C'', Num (3008 / 1000)), (''svm_reg__gamma'', Str ''scale''),
            (''svm_reg__kernel'', Str ''rbf'')],
           [(''svm_reg__C'', Num (7505 / 1000)), (''svm_reg__gamma'', Str ''auto''),
            (''svm_reg__kernel'', Str ''linear'')]], 48)"
  by (simp add: sorted_items counter_random_def c_lower_bound_def c_upper_bound_def)
     (simp add: two_Suc)

text \<open>
  C8. Whatever the generator draws (an index below the bound, a number in \<open>[0, 1)\<close>),
  the sampler returns \<open>n_iter\<close> candidates without an error, and every candidate has
  the three keys with a regularization strength \<open>C = 0.01 + 14.99 * u\<close> in the half-open
  range \<open>0.01 \<le> C < 15.0\<close>, the gamma policy \<open>auto\<close> or \<open>scale\<close>, and the kernel \<open>rbf\<close> or
  \<open>linear\<close>.
\<close>

theorem sampled_candidates_in_space:
  assumes "numpy_random_ok R"
  shows "\<exists>candidates g'. ParameterSampler R param_distributions n_iter g = (Inr candidates, g')
           \<and> length candidates = n_iter
           \<and> (\<forall>i < n_iter. \<exists>c gm k.
                 candidates ! i = [(''svm_reg__C'', Num c), (''svm_reg__gamma'', Str gm),
                                   (''svm_reg__kernel'', Str k)]
                 \<and> c_lower_bound \<le> c \<and> c < c_upper_bound
                 \<and> gm \<in> {''auto'', ''scale''} \<and> k \<in> {''rbf'', ''linear''})"
proof -
  obtain candidates g' where c:
      "ParameterSampler R param_distributions n_iter g = (Inr candidates, g')"
      "length candidates = n_iter" "list_all candidate_in_space candidates"
    using ParameterSampler_total [OF assms, of n_iter g] by blast
  have "\<exists>c gm k. candidates ! i = [(''svm_reg__C'', Num c), (''svm_reg__gamma'', Str gm),
                                     (''svm_reg__kernel'', Str k)]
           \<and> c_lower_bound \<le> c \<and> c < c_upper_bound
           \<and> gm \<in> {''auto'', ''scale''} \<and> k \<in> {''rbf'', ''linear''}" if "i < n_iter" for i
  proof (rule candidate_in_spaceD)
    show "candidate_in_space (candidates ! i)"
      using c(2,3) that by (simp add: list_all_length)
  qed
  with c(1,2) show ?thesis by blast
qed

theorem sampled_candidates_in_space_witness:
  "numpy_random_ok counter_random
   \<and> ParameterSampler counter_random param_distributions (Suc (Suc 0)) 42 =
       (Inr [[(''svm_reg__C'', Num (3008 / 1000)), (''svm_reg__gamma'', Str ''scale''),
              (''svm_reg__kernel'', Str ''rbf'')],
             [(''svm_reg__C'', Num (7505 / 1000)), (''svm_reg__gamma'', Str ''auto''),
              (''svm_reg__kernel'', Str ''linear'')]], 48)
   \<and> c_lower_bound \<le> 3008 / 1000 \<and> 3008 / 1000 < c_upper_bound
   \<and> c_lower_bound \<le> 7505 / 1000 \<and> 7505 / 1000 < c_upper_bound"
  using sampled_candidates_in_space [OF counter_random_ok, of "Suc (Suc 0)" 42]
    counter_random_ok sample_two
  by (simp add: c_lower_bound_def c_upper_bound_def)

lemma best_from_spec:
  assumes "length pre = i" and "b < i" and "pre ! b = s" and "\<forall>j<i. pre ! j \<le> s"
  shows "best_from b s i xs < i + length xs
    \<and> (\<forall>j < i + length xs. (pre @ xs) ! j \<le> (pre @ xs) ! best_from b s i xs)"
  using assms
proof (induction xs arbitrary: pre b s i)
  case Nil
  then show ?case by simp
next
  case (Cons x xs)
  show ?case
  proof (cases "s < x")
    case True
    have "best_from i x (Suc i) xs < Suc i + length xs
      \<and> (\<forall>j < Suc i + length xs.
            ((pre @ [x]) @ xs) ! j \<le> ((pre @ [x]) @ xs) ! best_from i x (Suc i) xs)"
    proof (rule Cons.IH)
      show "length (pre @ [x]) = Suc i" using Cons.prems(1) by simp
      show "i < Suc i" by simp
      show "(pre @ [x]) ! i = x" using Cons.prems(1) by (simp add: nth_append)
      show "\<forall>j<Suc i. (pre @ [x]) ! j \<le> x"
      proof (intro allI impI)
        fix j assume "j < Suc i"
        then consider "j < i" | "j = i" by linarith
        then show "(pre @ [x]) ! j \<le> x"
        proof cases
          case 1
          then have "(pre @ [x]) ! j = pre ! j" using Cons.prems(1) by (simp add: nth_append)
          moreover have "pre ! j \<le> s" using Cons.prems(4) 1 by simp
          ultimately show ?thesis using True by simp
        next
          case 2
          then show ?thesis using Cons.prems(1) by (simp add: nth_append)
        qed
      qed
    qed
    then show ?thesis using True by simp
  next
    case False
    have "best_from b s (Suc i) xs < Suc i + length xs
      \<and> (\<forall>j < Suc i + length xs.
            ((pre @ [x]) @ xs) ! j \<le> ((pre @ [x]) @ xs) ! best_from b s (Suc i) xs)"
    proof (rule Cons.IH)
      show "length (pre @ [x]) = Suc i" using Cons.prems(1) by simp
      show "b < Suc i" using Cons.prems(2) by simp
      show "(pre @ [x]) ! b = s" using Cons.prems(1,2,3) by (simp add: nth_append)
      show "\<forall>j<Suc i. (pre @ [x]) ! j \<le> s"
      proof (intro allI impI)
        fix j assume "j < Suc i"
        then consider "j < i" | "j = i" by linarith
        then show "(pre @ [x]) ! j \<le> s"
        proof cases
          case 1
          then show ?thesis using Cons.prems(1,4) by (simp add: nth_append)
        next
          case 2
          then show ?thesis using Cons.prems(1) False by (simp add: nth_append)
        qed
      qed
    qed
    then show ?thesis using False by simp
  qed
qed

lemma best_index_is_best:
  assumes "scores \<noteq> []"
  shows "\<exists>i. best_index scores = Some i \<and> i < length scores
           \<and> (\<forall>j < length scores. scores ! j \<le> scores ! i)"
proof -
  obtain x xs where sc: "scores = x # xs" using assms by (cases scores) auto
  have "best_from 0 x 1 xs < 1 + length xs
    \<and> (\<forall>j < 1 + length xs. ([x] @ xs) ! j \<le> ([x] @ xs) ! best_from 0 x 1 xs)"
    by (rule best_from_spec) simp_all
  then show ?thesis by (simp add: sc best_index_def)
qed


subsection \<open>Seeds drawn by the fits\<close>

lemma cross_validate_scores:
  assumes "seed_free fit_and_score"
  shows "fst (cross_validate R fit_and_score params X y folds global)
           = map (\<lambda>k. fit_and_score params X y k 0) folds"
proof (induction folds arbitrary: global)
  case Nil
  show ?case by simp
next
  case (Cons k folds)
  have "fit_and_score params X y k s = fit_and_score params X y k 0" for s
    using assms by (simp add: seed_free_def)
  then show ?case
    using Cons.IH by (simp add: split_beta Let_def)
qed

lemma cross_validate_global:
  "snd (cross_validate R fit_and_score params X y folds global)
     = (after_fit R ^^ length folds) global"
proof (induction folds arbitrary: global)
  case Nil
  show ?case by simp
next
  case (Cons k folds)
  show ?case
    using Cons.IH by (simp add: split_beta Let_def funpow_swap1 after_fit_def [symmetric])
qed

lemma evaluate_candidates_scores:
  assumes "seed_free fit_and_score"
  shows "fst (evaluate_candidates R fit_and_score X y cv candidates global)
           = map (\<lambda>params. sum_list (map (\<lambda>k. fit_and_score params X y k 0) [0..<cv]) / real cv)
               candidates"
proof (induction candidates arbitrary: global)
  case Nil
  show ?case by simp
next
  case (Cons params candidates)
  show ?case
    using Cons.IH cross_validate_scores [OF assms, of R params X y "[0..<cv]"]
    by (simp add: split_beta Let_def)
qed

lemma evaluate_candidates_global:
  "snd (evaluate_candidates R fit_and_score X y cv candidates global)
     = (after_fit R ^^ (length candidates * cv)) global"
proof (induction candidates arbitrary: global)
  case Nil
  show ?case by simp
next
  case (Cons params candidates)
  have "(after_fit R ^^ (length candidates * cv)) ((after_fit R ^^ cv) global)
      = (after_fit R ^^ (length candidates * cv + cv)) global"
    by (simp only: funpow_add o_apply)
  then show ?case
    using Cons.IH cross_validate_global [of R fit_and_score params X y "[0..<cv]"]
    by (simp add: split_beta Let_def add.commute)
qed

lemma length_evaluate_candidates:
  "length (fst (evaluate_candidates R fit_and_score X y cv candidates global)) = length candidates"
  by (induction candidates arbitrary: global) (simp_all add: split_beta Let_def)

text \<open>
  On a training set of at least five rows the notebook's search raises nothing: it
  returns a candidate of the configuration space together with a score, and it leaves
  the global generator 251 draws further, one for each of the 50 times 5 fits of the
  cross-validation and one for the final fit of the best candidate.
\<close>

lemma search_returns_best:
  assumes "numpy_random_ok R" and "5 \<le> length X_train"
  shows "\<exists>best score.
           fst (svr_rnd_search_fit R fit_and_score X_train y_train global) = Inr (best, score)
           \<and> candidate_in_space best"
    and "snd (svr_rnd_search_fit R fit_and_score X_train y_train global)
           = (after_fit R ^^ 251) global"
proof -
  obtain candidates g' where c:
      "ParameterSampler R param_distributions 50 (RandomState R 42) = (Inr candidates, g')"
      "length candidates = 50" "list_all candidate_in_space candidates"
    using ParameterSampler_total [OF assms(1), of 50 "RandomState R 42"] by blast
  obtain means g1 where e:
      "evaluate_candidates R fit_and_score X_train y_train 5 candidates global = (means, g1)"
    by (cases "evaluate_candidates R fit_and_score X_train y_train 5 candidates global")
  have lm: "length means = 50"
    using length_evaluate_candidates [of R fit_and_score X_train y_train 5 candidates global] e c(2)
    by simp
  then have "means \<noteq> []" by auto
  then obtain i where i: "best_index means = Some i" "i < length means"
    using best_index_is_best [of means] by blast
  obtain seed g2 where d: "svr_draw_seed R g1 = (seed, g2)" by (cases "svr_draw_seed R g1")
  have run: "svr_rnd_search_fit R fit_and_score X_train y_train global
      = (Inr (candidates ! i, means ! i), g2)"
    using c(1) e i(1) d assms(2)
    by (simp add: svr_rnd_search_fit_def RandomizedSearchCV_fit_def check_random_state_def
        global_after_def)
  have "candidates ! i \<in> set candidates" using i(2) lm c(2) by simp
  with c(3) have "candidate_in_space (candidates ! i)" by (simp add: list_all_iff)
  with run show "\<exists>best score.
           fst (svr_rnd_search_fit R fit_and_score X_train y_train global) = Inr (best, score)
           \<and> candidate_in_space best" by simp
  have g1: "g1 = (after_fit R ^^ 250) global"
    using evaluate_candidates_global [of R fit_and_score X_train y_train 5 candidates global]
      e c(2) by simp
  have g2: "g2 = after_fit R g1" using d by (simp add: after_fit_def)
  have "(after_fit R ^^ Suc 250) global = after_fit R ((after_fit R ^^ 250) global)"
    by (simp only: funpow.simps o_apply)
  moreover have "Suc 250 = (251 :: nat)" by simp
  ultimately have "(after_fit R ^^ 251) global = after_fit R ((after_fit R ^^ 250) global)"
    by (simp only:)
  then have "g2 = (after_fit R ^^ 251) global" by (simp only: g2 g1)
  with run show "snd (svr_rnd_search_fit R fit_and_score X_train y_train global)
           = (after_fit R ^^ 251) global" by simp
qed

text \<open>
  The search with one candidate and two folds on the counter generator, step by step.
\<close>

lemma sample_one:
  "ParameterSampler counter_random param_distributions (Suc 0) g =
     (Inr [[(''svm_reg__C'', Num (c_lower_bound + (c_upper_bound - c_lower_bound) * (real (g mod 10) / 10))),
            (''svm_reg__gamma'', Str ([''auto'', ''scale''] ! (Suc g mod 2))),
            (''svm_reg__kernel'', Str ([''rbf'', ''linear''] ! (Suc (Suc g) mod 2)))]],
      Suc (Suc (Suc g)))"
  by (simp add: sorted_items counter_random_def c_lower_bound_def c_upper_bound_def)
     (simp add: two_Suc)

lemma draw_counter: "svr_draw_seed counter_random g = (g mod libsvm_seed_bound, Suc g)"
  by (simp add: svr_draw_seed_def counter_random_def)

lemma seed_counter: "RandomState counter_random 42 = 42"
  by (simp add: counter_random_def)

lemma two_folds: "[0..<2] = [0, Suc 0]"
  by (simp add: numeral_2_eq_2)

lemma evaluate_one:
  "evaluate_candidates counter_random fit_and_score X y 2 [params] g =
     ([(fit_and_score params X y 0 (g mod libsvm_seed_bound)
         + fit_and_score params X y 1 (Suc g mod libsvm_seed_bound)) / 2], Suc (Suc g))"
  by (simp add: draw_counter two_folds)

text \<open>
  Without a seed the sampler draws from the global generator, and the candidates change
  with that generator's state.
\<close>

lemma unseeded_search_depends_on_global:
  "fst (RandomizedSearchCV_fit counter_random score_by_C param_distributions (Suc 0) 2
          None [(), ()] [1, 2] 0)
   \<noteq> fst (RandomizedSearchCV_fit counter_random score_by_C param_distributions (Suc 0) 2
          None [(), ()] [1, 2] 1)"
  by (simp add: RandomizedSearchCV_fit_def check_random_state_def global_after_def sample_one
      evaluate_one best_index_def draw_counter c_lower_bound_def c_upper_bound_def
      del: ParameterSampler.simps evaluate_candidates.simps)

text \<open>
  A score that did depend on the libsvm seed would change with the state of the global
  generator, although the sampler is seeded.
\<close>

lemma seeded_search_with_seed_dependent_score:
  "fst (RandomizedSearchCV_fit counter_random (\<lambda>params X y k seed. real seed)
          param_distributions (Suc 0) 2 (Some 42) [(), ()] [1, 2] 0)
   \<noteq> fst (RandomizedSearchCV_fit counter_random (\<lambda>params X y k seed. real seed)
          param_distributions (Suc 0) 2 (Some 42) [(), ()] [1, 2] 10)"
  by (simp add: RandomizedSearchCV_fit_def check_random_state_def global_after_def sample_one
      evaluate_one best_index_def draw_counter seed_counter libsvm_seed_bound_def
      del: ParameterSampler.simps evaluate_candidates.simps)

lemma score_by_C_seed_free: "seed_free score_by_C"
proof -
  have "score_by_C params X y k s = score_by_C params X y k s'" for params :: "(string \<times> param_value) list"
    and X :: "'a list" and y k s s'
    by (cases "(params, X, y, k, s)" rule: score_by_C.cases) simp_all
  then show ?thesis unfolding seed_free_def by blast
qed

text \<open>
  C5. Two runs of the notebook's search over the same training data give the same best
  configuration and the same best score (or the same error), whatever the state of
  numpy's global generator at the start of each run: the sampler is seeded with 42 on
  every run and the folds are chosen without random numbers. Each fit of the regressor
  draws a libsvm seed from the global generator, so the seeds differ from run to run;
  the statement is for a score that does not depend on that seed.
\<close>

theorem search_reproducible:
  assumes "seed_free fit_and_score"
  shows "fst (svr_rnd_search_fit R fit_and_score X_train y_train global1)
           = fst (svr_rnd_search_fit R fit_and_score X_train y_train global2)"
proof -
  have means: "fst (evaluate_candidates R fit_and_score X_train y_train 5 candidates g1)
      = fst (evaluate_candidates R fit_and_score X_train y_train 5 candidates g2)"
    for candidates g1 g2
    by (simp only: evaluate_candidates_scores [OF assms])
  have "fst (RandomizedSearchCV_fit R fit_and_score param_distributions 50 5 (Some 42)
               X_train y_train g)
      = (case ParameterSampler R param_distributions 50 (RandomState R 42) of
           (Inl e, rng') \<Rightarrow> Inl e
         | (Inr candidates, rng') \<Rightarrow>
             if length X_train < 5 then Inl ValueError
             else
               (let mean_test_score =
                      map (\<lambda>params.
                             sum_list (map (\<lambda>k. fit_and_score params X_train y_train k 0) [0..<5])
                               / real 5) candidates
                in case best_index mean_test_score of
                     None \<Rightarrow> Inl ValueError
                   | Some i \<Rightarrow> Inr (candidates ! i, mean_test_score ! i)))" for g
    using evaluate_candidates_scores [OF assms, of R X_train y_train 5]
    by (auto simp add: RandomizedSearchCV_fit_def check_random_state_def global_after_def
        split_beta Let_def split: prod.splits sum.splits option.splits)
  then show ?thesis by (simp only: svr_rnd_search_fit_def)
qed

theorem search_reproducible_witness:
  "seed_free (score_by_C :: (string \<times> param_value) list \<Rightarrow> unit list \<Rightarrow> real list \<Rightarrow> nat \<Rightarrow> nat \<Rightarrow> real)
   \<and> fst (svr_rnd_search_fit counter_random score_by_C [(), (), (), (), ()] [1, 2, 3, 4, 5] 0)
       = fst (svr_rnd_search_fit counter_random score_by_C [(), (), (), (), ()] [1, 2, 3, 4, 5] 7)"
  using search_reproducible [OF score_by_C_seed_free, of counter_random
      "[(), (), (), (), ()]" "[1, 2, 3, 4, 5]" 0 7] score_by_C_seed_free
  by (intro conjI)

end
